theory Spec2Isabelle
  imports Main "HOL-Library.Sublist"
begin

section \<open>Data model\<close>

text \<open>
  The relational schema (Prisma) gives the columns of \<open>User\<close> and \<open>Event\<close>. A
  \<open>String?\<close> column is a \<open>string option\<close>, a \<open>DateTime\<close> column is a \<open>Date\<close>.
  The field \<open>id\<close> is written \<open>user_id\<close> and \<open>event_id\<close>, since \<open>id\<close> is the identity
  function of HOL.
\<close>

datatype error = Error string

datatype Date = Date int

datatype EventType = JUNTO | INTERVIEW

record User =
  user_id :: string
  email :: "string option"
  address :: "string option"
  nickname :: string

text \<open>
  Modelled from the spec: the type \<open>FullEvent\<close>, which the synchronizer imports from the
  event-creation handler, has no declaration among the sources. The data model of the
  spec describes an Event with its owning proposer; the columns and their types are
  those of the \<open>Event\<close> model of the schema, and \<open>proposer\<close> is the \<open>User\<close> row. The
  synchronizer reads \<open>id\<close>, \<open>title\<close>, \<open>descriptionHtml\<close>, \<open>startDateTime\<close>, \<open>endDateTime\<close>,
  \<open>location\<close>, \<open>hash\<close>, \<open>isDeleted\<close>, \<open>gCalEventId\<close>, \<open>gCalId\<close> and \<open>proposer.nickname\<close>.
\<close>

record FullEvent =
  event_id :: string
  createdAt :: Date
  updatedAt :: Date
  title :: string
  descriptionHtml :: "string option"
  startDateTime :: Date
  endDateTime :: Date
  location :: string
  hash :: string
  series :: bool
  limit :: int
  isDeleted :: bool
  gCalEventRequested :: bool
  gCalEventId :: "string option"
  gCalId :: "string option"
  type :: EventType
  proposerId :: string
  proposer :: User
  isImported :: bool

text \<open>An attendee of a remote calendar event, as the provider reports it.\<close>

record EventAttendee =
  attendee_email :: string
  responseStatus :: string

text \<open>
  The payload type \<open>ParsedEvents\<close> of the synchronizer: a provider event schema extended
  with \<open>gCalEventId\<close>, \<open>gCalId\<close>, \<open>isDeleted\<close> and \<open>databaseId\<close>. The fields that share a
  name with a column of \<open>FullEvent\<close> carry the prefix \<open>p_\<close>; \<open>start.dateTime\<close> and
  \<open>end.dateTime\<close> are \<open>start_dateTime\<close> and \<open>end_dateTime\<close>. \<open>attendees\<close> is \<open>None\<close> while the
  object has no such field.
\<close>

record ParsedEvent =
  databaseId :: string
  p_isDeleted :: bool
  p_gCalId :: "string option"
  p_gCalEventId :: "string option"
  summary :: string
  start_dateTime :: string
  end_dateTime :: string
  guestsCanSeeOtherGuests :: bool
  guestsCanInviteOthers :: bool
  p_location :: string
  description :: string
  attendees :: "EventAttendee list option"

section \<open>JavaScript primitives used by the code\<close>

text \<open>
  \<open>!s\<close> for \<open>s : string | null | undefined\<close> holds when \<open>s\<close> is absent or is the empty
  string. \<open>truthy\<close> returns the string when it passes the test \<open>if (s)\<close>.
\<close>

definition truthy :: "string option \<Rightarrow> string option" where
  "truthy s = (case s of None \<Rightarrow> None | Some v \<Rightarrow> if v = [] then None else Some v)"

definition falsy :: "string option \<Rightarrow> bool" where
  "falsy s = (truthy s = None)"

text \<open>\<open>s.includes(p)\<close>: \<open>p\<close> occurs in \<open>s\<close> as a contiguous substring.\<close>

fun includes_str :: "string \<Rightarrow> string \<Rightarrow> bool" where
  "includes_str [] p = (p = [])"
| "includes_str (c # cs) p = (prefix p (c # cs) \<or> includes_str cs p)"

text \<open>A \<open>string | null\<close> value inside a template literal: \<open>null\<close> prints as \<open>null\<close>.\<close>

definition template_str :: "string option \<Rightarrow> string" where
  "template_str s = (case s of None \<Rightarrow> ''null'' | Some v \<Rightarrow> v)"

text \<open>
  \<open>xs.map(f)\<close> with a callback that may throw: the first throw leaves the map, and no
  later element is visited.
\<close>

fun mapE :: "('a \<Rightarrow> error + 'b) \<Rightarrow> 'a list \<Rightarrow> error + 'b list" where
  "mapE f [] = Inr []"
| "mapE f (x # xs) =
     (case f x of
        Inl err \<Rightarrow> Inl err
      | Inr y \<Rightarrow> (case mapE f xs of Inl err \<Rightarrow> Inl err | Inr ys \<Rightarrow> Inr (y # ys)))"

text \<open>\<open>xs[i]\<close> in JavaScript: \<open>undefined\<close> out of range.\<close>

definition nth_opt :: "'a list \<Rightarrow> nat \<Rightarrow> 'a option" where
  "nth_opt xs i = (if i < length xs then Some (xs ! i) else None)"

section \<open>parseEvents\<close>

text \<open>
  \<open>Date.prototype.toString\<close> depends on the time zone of the process; it is the
  parameter \<open>toString\<close>. An object inside a template literal prints as
  \<open>[object Object]\<close>.
\<close>

definition protocol_of :: "string \<Rightarrow> string" where
  "protocol_of reqHost = (if includes_str reqHost ''localhost'' then ''http'' else ''https'')"

definition parseEvent :: "(Date \<Rightarrow> string) \<Rightarrow> string \<Rightarrow> string \<Rightarrow> FullEvent \<Rightarrow> error + ParsedEvent" where
  "parseEvent toString protocol reqHost event =
     (if falsy (gCalEventId event)
      then Inl (Error ''gCalEventId not found for: [object Object]'')
      else
        let title' = (if isDeleted event then ''CANCELLED: '' @ title event else title event)
        in Inr \<lparr> databaseId = event_id event,
                 p_isDeleted = isDeleted event,
                 p_gCalId = gCalId event,
                 p_gCalEventId = gCalEventId event,
                 summary = title',
                 start_dateTime = toString (startDateTime event),
                 end_dateTime = toString (endDateTime event),
                 guestsCanSeeOtherGuests = False,
                 guestsCanInviteOthers = False,
                 p_location = location event,
                 description =
                   (template_str (descriptionHtml event)
                      @ (if nickname (proposer event) \<noteq> []
                         then [CHR 0x0A, CHR 0x0A] @ ''Proposer: '' @ nickname (proposer event)
                         else []))
                   @ ([CHR 0x0A] @ ''RSVP here: '' @ protocol @ ''://'' @ reqHost
                        @ ''/rsvp/'' @ hash event),
                 attendees = None \<rparr>)"

definition parseEvents :: "(Date \<Rightarrow> string) \<Rightarrow> FullEvent list \<Rightarrow> string \<Rightarrow> error + ParsedEvent list" where
  "parseEvents toString events reqHost =
     (let protocol = protocol_of reqHost
      in mapE (parseEvent toString protocol reqHost) events)"

section \<open>The Calendar Adapter boundary\<close>

text \<open>
  \<open>getCalendar\<close>, \<open>getEvent\<close> and the \<open>events.update\<close> method of the calendar client are
  the provider boundary. They are parameters of the model: each call takes the state
  \<open>'w\<close> of the outside world and returns its answer (\<open>Inl\<close> for a rejected promise)
  with the new state. Of the remote event that \<open>getEvent\<close> returns the code reads
  \<open>attendees\<close> only; of the answer to an update it reads \<open>data.id\<close>.
\<close>

record GEvent =
  g_attendees :: "EventAttendee list option"

record UpdateParams =
  eventId :: "string option"
  requestBody :: ParsedEvent

record UpdateResponse =
  data_id :: "string option"

record 'w CalendarAdapter =
  getCalendar :: "'w \<Rightarrow> (error + unit) \<times> 'w"
  getEvent :: "string \<Rightarrow> string \<Rightarrow> 'w \<Rightarrow> (error + GEvent) \<times> 'w"
  events_update :: "UpdateParams \<Rightarrow> 'w \<Rightarrow> (error + UpdateResponse) \<times> 'w"

text \<open>
  What a run does to the outside, in order: every call of the boundary with its
  arguments and its answer, and every line written with \<open>console.error\<close>.
\<close>

datatype action =
    CallGetCalendar "error + unit"
  | CallGetEvent string string "error + GEvent"
  | CallEventsUpdate UpdateParams "error + UpdateResponse"
  | ConsoleError string

text \<open>A computation returns its result, the new world and the actions it performed.\<close>

fun emit :: "'x list \<Rightarrow> 'r \<times> 'w \<times> 'x list \<Rightarrow> 'r \<times> 'w \<times> 'x list" where
  "emit as (r, w, tr) = (r, w, as @ tr)"

section \<open>updateEvents\<close>

text \<open>
  The loop that fetches and prefills the attendees. \<open>eventsToUpdate\<close> is the array the
  loop pushes to. An element of \<open>parsedEvents\<close> at an index below its length is never
  \<open>undefined\<close>, so the first \<open>continue\<close> of the loop body has no branch here. A
  rejected \<open>getEvent\<close> leaves the loop and the function.
\<close>

fun fetchLoop :: "'w CalendarAdapter \<Rightarrow> ParsedEvent list \<Rightarrow> ParsedEvent list \<Rightarrow> 'w
    \<Rightarrow> (error + ParsedEvent list) \<times> 'w \<times> action list" where
  "fetchLoop ad [] eventsToUpdate w = (Inr eventsToUpdate, w, [])"
| "fetchLoop ad (parsedEvent # rest) eventsToUpdate w =
     (if p_isDeleted parsedEvent
      then fetchLoop ad rest (eventsToUpdate @ [parsedEvent]) w
      else
        (case truthy (p_gCalEventId parsedEvent) of
           None \<Rightarrow>
             emit [ConsoleError ''gcalEvent id in parsed event not found'']
               (fetchLoop ad rest eventsToUpdate w)
         | Some gid \<Rightarrow>
             (case truthy (p_gCalId parsedEvent) of
                None \<Rightarrow>
                  emit [ConsoleError ''gCalId not defined for the event'']
                    (fetchLoop ad rest eventsToUpdate w)
              | Some calendarId \<Rightarrow>
                  (case getEvent ad calendarId gid w of
                     (Inl err, w') \<Rightarrow> (Inl err, w', [CallGetEvent calendarId gid (Inl err)])
                   | (Inr event, w') \<Rightarrow>
                       emit [CallGetEvent calendarId gid (Inr event)]
                         (fetchLoop ad rest
                            (eventsToUpdate @
                               [parsedEvent\<lparr>attendees :=
                                  Some (case g_attendees event of None \<Rightarrow> [] | Some a \<Rightarrow> a)\<rparr>])
                            w')))))"

text \<open>
  \<open>eventsToUpdate.map((e) => calendar.events.update(...))\<close>: every call is issued, in
  the order of the array, before any answer is awaited.
\<close>

fun issueUpdates :: "'w CalendarAdapter \<Rightarrow> ParsedEvent list \<Rightarrow> 'w
    \<Rightarrow> (error + UpdateResponse) list \<times> 'w \<times> action list" where
  "issueUpdates ad [] w = ([], w, [])"
| "issueUpdates ad (e # es) w =
     (let params = \<lparr>eventId = p_gCalEventId e, requestBody = e\<rparr> in
      case events_update ad params w of
        (r, w') \<Rightarrow> emit [CallEventsUpdate params r] (case issueUpdates ad es w' of
                      (rs, w'', tr) \<Rightarrow> (r # rs, w'', tr)))"

text \<open>
  \<open>Promise.all\<close>: the list of all answers when every promise is fulfilled, a rejection
  otherwise. Which rejection it reports when several promises reject depends on
  timing; the model reports the first in the order of the array.
\<close>

fun promise_all :: "(error + 'a) list \<Rightarrow> error + 'a list" where
  "promise_all [] = Inr []"
| "promise_all (Inl err # ps) = Inl err"
| "promise_all (Inr v # ps) =
     (case promise_all ps of Inl err \<Rightarrow> Inl err | Inr vs \<Rightarrow> Inr (v # vs))"

record IdPair =
  calendarEventId :: "string option"
  databaseEventId :: "string option"

text \<open>\<open>updated.map((i, key) => ...)\<close>, with \<open>allEvents[key]?.id\<close>.\<close>

definition pair_ids :: "FullEvent list \<Rightarrow> UpdateResponse list \<Rightarrow> IdPair list" where
  "pair_ids allEvents updated' =
     map (\<lambda>(key, i). \<lparr> calendarEventId = data_id i,
                        databaseEventId = map_option event_id (nth_opt allEvents key) \<rparr>)
       (enumerate 0 updated')"

record UpdatableEvents =
  updated :: "FullEvent list"
  deleted :: "FullEvent list"

definition mark_deleted :: "FullEvent list \<Rightarrow> FullEvent list" where
  "mark_deleted ds = map (\<lambda>e. e\<lparr>isDeleted := True\<rparr>) ds"

definition updateEvents :: "'w CalendarAdapter \<Rightarrow> (Date \<Rightarrow> string) \<Rightarrow> UpdatableEvents \<Rightarrow> string \<Rightarrow> 'w
    \<Rightarrow> (error + IdPair list) \<times> 'w \<times> action list" where
  "updateEvents ad toString events reqHost w =
     (let deletedEvents = mark_deleted (deleted events);
          allEvents = updated events @ deletedEvents
      in case parseEvents toString allEvents reqHost of
           Inl err \<Rightarrow> (Inl err, w, [])
         | Inr parsedEvents \<Rightarrow>
             (case getCalendar ad w of
                (Inl err, w1) \<Rightarrow> (Inl err, w1, [CallGetCalendar (Inl err)])
              | (Inr calendar, w1) \<Rightarrow>
                  emit [CallGetCalendar (Inr calendar)]
                    (case fetchLoop ad parsedEvents [] w1 of
                       (Inl err, w2, tr) \<Rightarrow> (Inl err, w2, tr)
                     | (Inr eventsToUpdate, w2, tr) \<Rightarrow>
                         emit tr
                           (case issueUpdates ad eventsToUpdate w2 of
                              (updateGcalPromises, w3, tr') \<Rightarrow>
                                (case promise_all updateGcalPromises of
                                   Inl err \<Rightarrow> (Inl err, w3, tr')
                                 | Inr updated' \<Rightarrow> (Inr (pair_ids allEvents updated'), w3, tr'))))))"

section \<open>The invite handler\<close>

text \<open>
  The handler calls \<open>sendInvite\<close> and the data store (\<open>prisma.user.findUnique\<close>,
  \<open>prisma.rsvp.update\<close>). They are parameters as well, over a world state \<open>'w\<close>.
\<close>

record 'w Services =
  sendInvite :: "string list \<Rightarrow> string \<Rightarrow> 'w \<Rightarrow> (error + unit) \<times> 'w"
  user_findUnique :: "string \<Rightarrow> 'w \<Rightarrow> (error + User option) \<times> 'w"
  rsvp_update :: "string \<Rightarrow> string \<Rightarrow> 'w \<Rightarrow> (error + unit) \<times> 'w"

datatype handler_action =
    CallSendInvite "string list" string "error + unit"
  | CallFindUnique string "error + User option"
  | CallRsvpUpdate string string "error + unit"
  | ConsoleErrorObj error

text \<open>
  The relevant part of the request: the \<open>host\<close> header and the fields \<open>events\<close> and
  \<open>email\<close> of the body, each absent or present.
\<close>

record Request =
  header_host :: "string option"
  body_events :: "string list option"
  body_email :: "string option"

record Response =
  status :: nat
  json_data :: bool

text \<open>
  The marking loop over \<open>events\<close>. \<open>break\<close> ends the loop when no user has the email;
  a rejected \<open>findUnique\<close> is outside the \<open>try\<close> and leaves the handler; a rejected
  \<open>rsvp.update\<close> is caught and written with \<open>console.error\<close>.
\<close>

fun markLoop :: "'w Services \<Rightarrow> string \<Rightarrow> string list \<Rightarrow> 'w
    \<Rightarrow> (error + unit) \<times> 'w \<times> handler_action list" where
  "markLoop sv email' [] w = (Inr (), w, [])"
| "markLoop sv email' (ev # rest) w =
     (case user_findUnique sv email' w of
        (Inl err, w') \<Rightarrow> (Inl err, w', [CallFindUnique email' (Inl err)])
      | (Inr None, w') \<Rightarrow> (Inr (), w', [CallFindUnique email' (Inr None)])
      | (Inr (Some userId), w') \<Rightarrow>
          (case rsvp_update sv ev (user_id userId) w' of
             (Inl err, w'') \<Rightarrow>
               emit [CallFindUnique email' (Inr (Some userId)),
                     CallRsvpUpdate ev (user_id userId) (Inl err),
                     ConsoleErrorObj err]
                 (markLoop sv email' rest w'')
           | (Inr ok, w'') \<Rightarrow>
               emit [CallFindUnique email' (Inr (Some userId)),
                     CallRsvpUpdate ev (user_id userId) (Inr ok)]
                 (markLoop sv email' rest w'')))"

text \<open>\<open>prodHost\<close> is \<open>process.env.PROD_HOST\<close>.\<close>

definition sendInviteHandler :: "'w Services \<Rightarrow> string option \<Rightarrow> Request \<Rightarrow> 'w
    \<Rightarrow> (error + Response) \<times> 'w \<times> handler_action list" where
  "sendInviteHandler sv prodHost req w =
     (case (body_events req, truthy (body_email req)) of
        (Some events, Some email') \<Rightarrow>
          (if falsy prodHost
           then (Inl (Error ''set prodHost in .env -- the host of the app in prod''), w, [])
           else
             (case sendInvite sv events email' w of
                (Inl err, w1) \<Rightarrow> (Inl err, w1, [CallSendInvite events email' (Inl err)])
              | (Inr ok, w1) \<Rightarrow>
                  emit [CallSendInvite events email' (Inr ok)]
                    (case markLoop sv email' events w1 of
                       (Inl err, w2, tr) \<Rightarrow> (Inl err, w2, tr)
                     | (Inr done, w2, tr) \<Rightarrow>
                         (Inr \<lparr>status = 200, json_data = True\<rparr>, w2, tr))))
      | _ \<Rightarrow> (Inl (Error ''`events` and/or `email` not found in req.body''), w, []))"

section \<open>Observations on a run\<close>

text \<open>The attendee fetches of a run, the update requests of a run, and its provider calls.\<close>

fun getEvent_calls :: "action list \<Rightarrow> (string \<times> string) list" where
  "getEvent_calls [] = []"
| "getEvent_calls (CallGetEvent calendarId gid r # tr) = (calendarId, gid) # getEvent_calls tr"
| "getEvent_calls (a # tr) = getEvent_calls tr"

fun update_calls :: "action list \<Rightarrow> UpdateParams list" where
  "update_calls [] = []"
| "update_calls (CallEventsUpdate params r # tr) = params # update_calls tr"
| "update_calls (a # tr) = update_calls tr"

fun is_adapter_call :: "action \<Rightarrow> bool" where
  "is_adapter_call (ConsoleError msg) = False"
| "is_adapter_call a = True"

definition adapter_calls :: "action list \<Rightarrow> action list" where
  "adapter_calls tr = filter is_adapter_call tr"

text \<open>The event ids for which a run of the handler attempted \<open>rsvp.update\<close>.\<close>

fun rsvp_update_calls :: "handler_action list \<Rightarrow> string list" where
  "rsvp_update_calls [] = []"
| "rsvp_update_calls (CallRsvpUpdate ev uid r # tr) = ev # rsvp_update_calls tr"
| "rsvp_update_calls (a # tr) = rsvp_update_calls tr"

section \<open>Sample inputs\<close>

text \<open>
  A provider whose world state counts the calls it has answered. It reports one
  attendee for every remote event except \<open>g-none\<close>, which has no attendee list, and it
  rejects the update of the remote event \<open>g-reject\<close>; every other update answers with
  the remote id it was given.
\<close>

definition sample_attendee :: EventAttendee where
  "sample_attendee = \<lparr>attendee_email = ''ann@example.com'', responseStatus = ''accepted''\<rparr>"

definition sample_adapter :: "nat CalendarAdapter" where
  "sample_adapter =
     \<lparr> getCalendar = (\<lambda>w. (Inr (), Suc w)),
       getEvent = (\<lambda>calendarId gid w.
         (if gid = ''g-none'' then Inr \<lparr>g_attendees = None\<rparr>
          else Inr \<lparr>g_attendees = Some [sample_attendee]\<rparr>, Suc w)),
       events_update = (\<lambda>params w.
         (if eventId params = Some ''g-reject'' then Inl (Error ''update rejected'')
          else Inr \<lparr>data_id = eventId params\<rparr>, Suc w)) \<rparr>"

definition sample_toString :: "Date \<Rightarrow> string" where
  "sample_toString d = (case d of Date ms \<Rightarrow> if ms = 0 then ''Thu Jan 01 1970'' else ''Fri Jan 02 1970'')"

definition sample_user :: User where
  "sample_user =
     \<lparr> user_id = ''u1'', email = Some ''ann@example.com'', address = None, nickname = ''Ann'' \<rparr>"

definition sample_event :: FullEvent where
  "sample_event =
     \<lparr> event_id = ''e1'', createdAt = Date 0, updatedAt = Date 0, title = ''Standup'',
       descriptionHtml = Some ''Daily'', startDateTime = Date 0, endDateTime = Date 1,
       location = ''Room 1'', hash = ''abc123'', series = False, limit = 0,
       isDeleted = False, gCalEventRequested = True, gCalEventId = Some ''g1'',
       gCalId = Some ''cal'', type = JUNTO, proposerId = ''u1'', proposer = sample_user,
       isImported = False \<rparr>"

text \<open>
  Variants of the sample event: one whose remote event has no attendee list, one
  without a remote calendar id, one whose update the provider rejects, and one without
  a remote event id.
\<close>

definition sample_event_no_attendees :: FullEvent where
  "sample_event_no_attendees = sample_event\<lparr>event_id := ''e2'', gCalEventId := Some ''g-none''\<rparr>"

definition sample_event_no_calendar :: FullEvent where
  "sample_event_no_calendar =
     sample_event\<lparr>event_id := ''e3'', gCalEventId := Some ''g3'', gCalId := None\<rparr>"

definition sample_event_rejected :: FullEvent where
  "sample_event_rejected = sample_event\<lparr>event_id := ''e4'', gCalEventId := Some ''g-reject''\<rparr>"

definition sample_event_no_remote :: FullEvent where
  "sample_event_no_remote = sample_event\<lparr>event_id := ''e5'', gCalEventId := None\<rparr>"

text \<open>The payload that \<open>parseEvents\<close> builds for the sample event and the host \<open>example.com\<close>.\<close>

definition sample_payload :: ParsedEvent where
  "sample_payload =
     \<lparr> databaseId = ''e1'', p_isDeleted = False, p_gCalId = Some ''cal'',
       p_gCalEventId = Some ''g1'', summary = ''Standup'',
       start_dateTime = ''Thu Jan 01 1970'', end_dateTime = ''Fri Jan 02 1970'',
       guestsCanSeeOtherGuests = False, guestsCanInviteOthers = False,
       p_location = ''Room 1'',
       description = ''Daily'' @ [CHR 0x0A, CHR 0x0A] @ ''Proposer: Ann'' @ [CHR 0x0A]
                      @ ''RSVP here: https://example.com/rsvp/abc123'',
       attendees = None \<rparr>"

text \<open>
  Services for the handler: the only user has the email \<open>ann@example.com\<close>, and the
  RSVP row of the event \<open>bad\<close> cannot be updated.
\<close>

definition sample_services :: "nat Services" where
  "sample_services =
     \<lparr> sendInvite = (\<lambda>events attendeeEmail w. (Inr (), Suc w)),
       user_findUnique = (\<lambda>email' w.
         (Inr (if email' = ''ann@example.com'' then Some sample_user else None), Suc w)),
       rsvp_update = (\<lambda>ev attendeeId w.
         (if ev = ''bad'' then Inl (Error ''Record to update not found.'') else Inr (), Suc w)) \<rparr>"

section \<open>Basic facts\<close>

subsection \<open>Strings, truthiness and maps that may throw\<close>

lemma includes_str_sublist: "includes_str s p = sublist p s"
  by (induction s) (auto simp: sublist_Cons_right)

lemma truthy_Some: "truthy s = Some v \<Longrightarrow> s = Some v \<and> v \<noteq> []"
  by (auto simp: truthy_def split: option.splits if_splits)

lemma mapE_Inr_length: "mapE f xs = Inr ys \<Longrightarrow> length ys = length xs"
  by (induction xs arbitrary: ys) (auto split: sum.splits)

lemma mapE_Inr_nth: "mapE f xs = Inr ys \<Longrightarrow> i < length xs \<Longrightarrow> f (xs ! i) = Inr (ys ! i)"
proof (induction xs arbitrary: ys i)
  case Nil
  then show ?case by simp
next
  case (Cons x xs)
  then show ?case by (cases i) (auto split: sum.splits)
qed

lemma mapE_Inl_iff: "isl (mapE f xs) \<longleftrightarrow> (\<exists>x\<in>set xs. isl (f x))"
  by (induction xs) (auto split: sum.splits simp: isl_def)

lemma mapE_Inl_source: "mapE f xs = Inl err \<Longrightarrow> \<exists>x\<in>set xs. f x = Inl err"
  by (induction xs) (auto split: sum.splits)

lemma mapE_append:
  "mapE f (xs @ ys) =
     (case mapE f xs of Inl err \<Rightarrow> Inl err
      | Inr us \<Rightarrow> (case mapE f ys of Inl err \<Rightarrow> Inl err | Inr vs \<Rightarrow> Inr (us @ vs)))"
  by (induction xs) (auto split: sum.splits)

lemma mapE_Inr_set:
  "mapE f xs = Inr ys \<Longrightarrow> y \<in> set ys \<Longrightarrow> \<exists>x\<in>set xs. f x = Inr y"
  by (induction xs arbitrary: ys) (auto split: sum.splits)

lemma mapE_Inr_image:
  "mapE f xs = Inr ys \<Longrightarrow> x \<in> set xs \<Longrightarrow> \<exists>y\<in>set ys. f x = Inr y"
  by (induction xs arbitrary: ys) (auto split: sum.splits)

lemma mapE_list_all2:
  "mapE f xs = Inr ys \<Longrightarrow> list_all2 (\<lambda>x y. f x = Inr y) xs ys"
  by (induction xs arbitrary: ys) (auto split: sum.splits)

lemma map_filter_list_all2:
  "list_all2 R xs ys \<Longrightarrow> (\<And>x y. R x y \<Longrightarrow> P x = Q y \<and> h x = k y) \<Longrightarrow>
   map h (filter P xs) = map k (filter Q ys)"
  by (induction rule: list_all2_induct) auto

lemma list_all2_filter:
  "list_all2 R xs ys \<Longrightarrow> (\<And>x y. R x y \<Longrightarrow> P x = Q y) \<Longrightarrow>
   list_all2 R (filter P xs) (filter Q ys)"
  by (induction rule: list_all2_induct) auto

subsection \<open>Facts about parseEvents\<close>

lemma parseEvent_Inl:
  "parseEvent toString protocol reqHost e = Inl err \<longleftrightarrow>
   falsy (gCalEventId e) \<and> err = Error ''gCalEventId not found for: [object Object]''"
  by (auto simp: parseEvent_def Let_def)

lemma parseEvent_Inr:
  "parseEvent toString protocol reqHost e = Inr p \<Longrightarrow>
     databaseId p = event_id e \<and> p_isDeleted p = isDeleted e \<and> p_gCalId p = gCalId e
   \<and> p_gCalEventId p = gCalEventId e \<and> attendees p = None \<and> \<not> falsy (gCalEventId e)
   \<and> summary p = (if isDeleted e then ''CANCELLED: '' @ title e else title e)"
  by (auto simp: parseEvent_def Let_def split: if_splits)

lemma parseEvent_description:
  "parseEvent toString protocol reqHost event = Inr p \<Longrightarrow>
   suffix (protocol @ ''://'' @ reqHost @ ''/rsvp/'' @ hash event) (description p)"
  unfolding parseEvent_def
  by (auto simp: Let_def suffix_def split: if_splits)

lemma parseEvents_summary:
  assumes "parseEvents toString evs reqHost = Inr parsed" and "i < length evs"
  shows "summary (parsed ! i)
           = (if isDeleted (evs ! i) then ''CANCELLED: '' @ title (evs ! i) else title (evs ! i))"
proof -
  from mapE_Inr_nth[OF assms(1)[unfolded parseEvents_def Let_def] assms(2)]
  have "parseEvent toString (protocol_of reqHost) reqHost (evs ! i) = Inr (parsed ! i)" .
  from parseEvent_Inr[OF this] show ?thesis by simp
qed

lemma parseEvents_missing_id:
  assumes "e \<in> set evs" and "falsy (gCalEventId e)"
  shows "parseEvents toString evs reqHost = Inl (Error ''gCalEventId not found for: [object Object]'')"
proof -
  let ?f = "parseEvent toString (protocol_of reqHost) reqHost"
  have "isl (?f e)" using assms(2) by (simp add: parseEvent_def)
  with assms(1) have "isl (mapE ?f evs)" unfolding mapE_Inl_iff by blast
  then obtain err where err: "mapE ?f evs = Inl err" by (auto simp: isl_def)
  then obtain x where "?f x = Inl err" using mapE_Inl_source by blast
  then have "err = Error ''gCalEventId not found for: [object Object]''"
    by (simp add: parseEvent_Inl)
  with err show ?thesis by (simp add: parseEvents_def Let_def)
qed

lemma mark_deleted_falsy_id:
  "e \<in> set ds \<Longrightarrow> falsy (gCalEventId e) \<Longrightarrow> \<exists>e' \<in> set (mark_deleted ds). falsy (gCalEventId e')"
  by (auto simp: mark_deleted_def)

lemma parseEvents_skip:
  assumes "parseEvent toString (protocol_of reqHost) reqHost e = Inr pe"
  shows "(case parseEvents toString (xs @ e # rest) reqHost of
            Inl err \<Rightarrow> parseEvents toString (xs @ rest) reqHost = Inl err
          | Inr parsed \<Rightarrow> \<exists>pxs prest. parsed = pxs @ pe # prest
               \<and> parseEvents toString (xs @ rest) reqHost = Inr (pxs @ prest))"
  using assms
  by (auto simp: parseEvents_def Let_def mapE_append split: sum.splits)

lemma parsed_fetch_candidates:
  assumes "parseEvents toString evs reqHost = Inr parsed"
  shows "map (\<lambda>p. (p_gCalId p, p_gCalEventId p))
             (filter (\<lambda>p. \<not> p_isDeleted p \<and> \<not> falsy (p_gCalId p)
                             \<and> \<not> falsy (p_gCalEventId p)) parsed)
       = map (\<lambda>e. (gCalId e, gCalEventId e))
             (filter (\<lambda>e. \<not> isDeleted e \<and> \<not> falsy (gCalId e)) evs)"
proof -
  let ?f = "parseEvent toString (protocol_of reqHost) reqHost"
  from assms have "list_all2 (\<lambda>e p. ?f e = Inr p) evs parsed"
    unfolding parseEvents_def Let_def by (rule mapE_list_all2)
  then have "map (\<lambda>e. (gCalId e, gCalEventId e))
               (filter (\<lambda>e. \<not> isDeleted e \<and> \<not> falsy (gCalId e)) evs)
           = map (\<lambda>p. (p_gCalId p, p_gCalEventId p))
               (filter (\<lambda>p. \<not> p_isDeleted p \<and> \<not> falsy (p_gCalId p)
                               \<and> \<not> falsy (p_gCalEventId p)) parsed)"
  proof (rule map_filter_list_all2)
    fix e p assume "?f e = Inr p"
    from parseEvent_Inr[OF this]
    show "(\<not> isDeleted e \<and> \<not> falsy (gCalId e))
            = (\<not> p_isDeleted p \<and> \<not> falsy (p_gCalId p) \<and> \<not> falsy (p_gCalEventId p))
          \<and> (gCalId e, gCalEventId e) = (p_gCalId p, p_gCalEventId p)"
      by simp
  qed
  then show ?thesis by simp
qed

subsection \<open>Actions of a run\<close>

lemma emit_fst [simp]: "fst (emit as x) = fst x"
  by (cases x) simp

lemma emit_world [simp]: "fst (snd (emit as x)) = fst (snd x)"
  by (cases x) simp

lemma emit_trace [simp]: "snd (snd (emit as x)) = as @ snd (snd x)"
  by (cases x) simp

lemma emit_eq_iff: "emit as x = (r, w, tr) \<longleftrightarrow> (\<exists>tr0. x = (r, w, tr0) \<and> tr = as @ tr0)"
  by (cases x) auto

lemma emit_emit [simp]: "emit as (emit bs x) = emit (as @ bs) x"
  by (cases x) simp

lemma getEvent_calls_append [simp]: "getEvent_calls (xs @ ys) = getEvent_calls xs @ getEvent_calls ys"
  by (induction xs rule: getEvent_calls.induct) auto

lemma update_calls_append [simp]: "update_calls (xs @ ys) = update_calls xs @ update_calls ys"
  by (induction xs rule: update_calls.induct) auto

lemma adapter_calls_append [simp]: "adapter_calls (xs @ ys) = adapter_calls xs @ adapter_calls ys"
  by (simp add: adapter_calls_def)

subsection \<open>The attendee loop\<close>

text \<open>The loop does not read the array it pushes to.\<close>

lemma fetchLoop_acc:
  "fetchLoop ad ps (acc @ acc') w =
     (case fetchLoop ad ps acc' w of (r, w', tr) \<Rightarrow> (map_sum id ((@) acc) r, w', tr))"
proof (induction ps arbitrary: acc' w)
  case Nil
  then show ?case by simp
next
  case (Cons p ps)
  show ?case
    using Cons.IH[of "acc' @ [p]" w] Cons.IH[of acc' w]
    apply (simp split: option.splits prod.splits sum.splits)
    apply (auto simp: Cons.IH[simplified] split: prod.splits)
    done
qed

lemma fetchLoop_append:
  "fetchLoop ad (xs @ ys) acc w =
     (case fetchLoop ad xs acc w of
        (Inl err, w', tr) \<Rightarrow> (Inl err, w', tr)
      | (Inr acc', w', tr) \<Rightarrow> emit tr (fetchLoop ad ys acc' w'))"
proof (induction xs arbitrary: acc w)
  case Nil
  then show ?case by (cases "fetchLoop ad ys acc w") simp
next
  case (Cons p ps)
  show ?case
    by (simp add: Cons.IH split: option.splits prod.splits sum.splits)
qed

lemma fetchLoop_Cons_cases:
  assumes "fetchLoop ad (p # ps) acc w = (r, w', tr)"
  obtains
    (deleted) "p_isDeleted p" "fetchLoop ad ps (acc @ [p]) w = (r, w', tr)"
  | (skipped) msg tr0 where
      "\<not> p_isDeleted p" "falsy (p_gCalEventId p) \<or> falsy (p_gCalId p)"
      "fetchLoop ad ps acc w = (r, w', tr0)" "tr = ConsoleError msg # tr0"
  | (rejected) calendarId gid err where
      "\<not> p_isDeleted p" "truthy (p_gCalId p) = Some calendarId"
      "truthy (p_gCalEventId p) = Some gid"
      "getEvent ad calendarId gid w = (Inl err, w')"
      "r = Inl err" "tr = [CallGetEvent calendarId gid (Inl err)]"
  | (fetched) calendarId gid ev w1 tr0 where
      "\<not> p_isDeleted p" "truthy (p_gCalId p) = Some calendarId"
      "truthy (p_gCalEventId p) = Some gid"
      "getEvent ad calendarId gid w = (Inr ev, w1)"
      "fetchLoop ad ps
         (acc @ [p\<lparr>attendees := Some (case g_attendees ev of None \<Rightarrow> [] | Some a \<Rightarrow> a)\<rparr>]) w1
       = (r, w', tr0)"
      "tr = CallGetEvent calendarId gid (Inr ev) # tr0"
proof (cases "p_isDeleted p")
  case True
  with assms show ?thesis by (intro deleted) simp_all
next
  case nd: False
  show ?thesis
  proof (cases "truthy (p_gCalEventId p)")
    case None
    with nd assms obtain tr0 where "fetchLoop ad ps acc w = (r, w', tr0)"
      and "tr = ConsoleError ''gcalEvent id in parsed event not found'' # tr0"
      by (auto simp: emit_eq_iff)
    with nd None show ?thesis by (intro skipped) (simp_all add: falsy_def)
  next
    case gid: (Some gid)
    show ?thesis
    proof (cases "truthy (p_gCalId p)")
      case None
      with nd gid assms obtain tr0 where "fetchLoop ad ps acc w = (r, w', tr0)"
        and "tr = ConsoleError ''gCalId not defined for the event'' # tr0"
        by (auto simp: emit_eq_iff)
      with nd None show ?thesis by (intro skipped) (simp_all add: falsy_def)
    next
      case cid: (Some calendarId)
      obtain a w1 where g: "getEvent ad calendarId gid w = (a, w1)"
        by (cases "getEvent ad calendarId gid w")
      show ?thesis
      proof (cases a)
        case (Inl err)
        with nd gid cid g assms show ?thesis by (intro rejected) auto
      next
        case (Inr ev)
        with nd gid cid g assms obtain tr0 where
          "fetchLoop ad ps
             (acc @ [p\<lparr>attendees := Some (case g_attendees ev of None \<Rightarrow> [] | Some a \<Rightarrow> a)\<rparr>]) w1
           = (r, w', tr0)"
          and "tr = CallGetEvent calendarId gid (Inr ev) # tr0"
          by (auto simp: emit_eq_iff)
        with nd gid cid g Inr show ?thesis by (intro fetched) simp_all
      qed
    qed
  qed
qed

lemma fetchLoop_no_updates:
  "fetchLoop ad ps acc w = (r, w', tr) \<Longrightarrow> update_calls tr = []"
proof (induction ps arbitrary: acc w tr)
  case Nil
  then show ?case by simp
next
  case (Cons p ps)
  then show ?case
    by (auto simp: emit_eq_iff split: if_splits option.splits prod.splits sum.splits)
qed

lemma fetchLoop_mem:
  "fetchLoop ad ps acc w = (r, w', tr) \<Longrightarrow> a \<in> set tr \<Longrightarrow>
   (\<exists>msg. a = ConsoleError msg) \<or> (\<exists>calendarId gid x. a = CallGetEvent calendarId gid x)"
proof (induction ps arbitrary: acc w tr)
  case Nil
  then show ?case by simp
next
  case (Cons p ps)
  from Cons.prems(1) show ?case
  proof (cases rule: fetchLoop_Cons_cases)
    case deleted
    from Cons.IH[OF deleted(2) Cons.prems(2)] show ?thesis .
  next
    case (skipped msg tr0)
    with Cons.prems(2) Cons.IH[OF skipped(3)] show ?thesis by auto
  next
    case (rejected calendarId gid err)
    with Cons.prems(2) show ?thesis by simp
  next
    case (fetched calendarId gid ev w1 tr0)
    with Cons.prems(2) Cons.IH[OF fetched(5)] show ?thesis by auto
  qed
qed

lemma fetchLoop_out:
  "fetchLoop ad ps acc w = (Inr out, w', tr) \<Longrightarrow> e \<in> set out \<Longrightarrow>
     e \<in> set acc \<or> (p_isDeleted e \<and> e \<in> set ps) \<or>
     (\<exists>p\<in>set ps. \<exists>calendarId gid ev.
         \<not> p_isDeleted p \<and> truthy (p_gCalId p) = Some calendarId
       \<and> truthy (p_gCalEventId p) = Some gid
       \<and> CallGetEvent calendarId gid (Inr ev) \<in> set tr
       \<and> e = p\<lparr>attendees := Some (case g_attendees ev of None \<Rightarrow> [] | Some a \<Rightarrow> a)\<rparr>)"
proof (induction ps arbitrary: acc w tr)
  case Nil
  then show ?case by simp
next
  case (Cons p ps)
  from Cons.prems(1) show ?case
  proof (cases rule: fetchLoop_Cons_cases)
    case deleted
    from Cons.IH[OF deleted(2) Cons.prems(2)] deleted(1) show ?thesis by auto
  next
    case (skipped msg tr0)
    from Cons.IH[OF skipped(3) Cons.prems(2)] skipped(4) show ?thesis by auto
  next
    case (rejected calendarId gid err)
    then show ?thesis by simp
  next
    case (fetched calendarId gid ev w1 tr0)
    from Cons.IH[OF fetched(5) Cons.prems(2)] fetched(1,2,3,6) show ?thesis
      by (elim disjE) (simp, blast, simp, simp, fastforce)
  qed
qed

lemma fetchLoop_keeps_deleted:
  "fetchLoop ad ps acc w = (Inr out, w', tr) \<Longrightarrow>
     set acc \<subseteq> set out \<and> (\<forall>p\<in>set ps. p_isDeleted p \<longrightarrow> p \<in> set out)"
proof (induction ps arbitrary: acc w tr)
  case Nil
  then show ?case by simp
next
  case (Cons p ps)
  from Cons.prems(1) show ?case
  proof (cases rule: fetchLoop_Cons_cases)
    case deleted
    from Cons.IH[OF deleted(2)] deleted(1) show ?thesis by auto
  next
    case (skipped msg tr0)
    from Cons.IH[OF skipped(3)] skipped(1) show ?thesis by auto
  next
    case (rejected calendarId gid err)
    then show ?thesis by simp
  next
    case (fetched calendarId gid ev w1 tr0)
    from Cons.IH[OF fetched(5)] fetched(1) show ?thesis by auto
  qed
qed

lemma fetchLoop_getEvent_prefix:
  "fetchLoop ad ps acc w = (r, w', tr) \<Longrightarrow>
   prefix (map (\<lambda>(calendarId, gid). (Some calendarId, Some gid)) (getEvent_calls tr))
          (map (\<lambda>p. (p_gCalId p, p_gCalEventId p))
             (filter (\<lambda>p. \<not> p_isDeleted p \<and> \<not> falsy (p_gCalId p)
                             \<and> \<not> falsy (p_gCalEventId p)) ps))"
proof (induction ps arbitrary: acc w tr)
  case Nil
  then show ?case by simp
next
  case (Cons p ps)
  from Cons.prems(1) show ?case
  proof (cases rule: fetchLoop_Cons_cases)
    case deleted
    from Cons.IH[OF deleted(2)] deleted(1) show ?thesis by simp
  next
    case (skipped msg tr0)
    from Cons.IH[OF skipped(3)] skipped(1,2,4) show ?thesis by auto
  next
    case (rejected calendarId gid err)
    with truthy_Some[of "p_gCalId p" calendarId] truthy_Some[of "p_gCalEventId p" gid]
    show ?thesis by (simp add: falsy_def)
  next
    case (fetched calendarId gid ev w1 tr0)
    from Cons.IH[OF fetched(5)] fetched(1,2,3,6)
      truthy_Some[of "p_gCalId p" calendarId] truthy_Some[of "p_gCalEventId p" gid]
    show ?thesis by (simp add: falsy_def)
  qed
qed

text \<open>Removing from the loop an event that it skips changes the log only.\<close>

lemma fetchLoop_skip:
  assumes pe: "\<not> p_isDeleted pe" "\<not> falsy (p_gCalEventId pe)" "falsy (p_gCalId pe)"
      and run: "fetchLoop ad (pxs @ pe # prest) acc w = (r, w', tr)"
      and run0: "fetchLoop ad (pxs @ prest) acc w = (r0, w0, tr0)"
  shows "r = r0 \<and> w' = w0 \<and> adapter_calls tr = adapter_calls tr0
       \<and> (\<not> isl r \<longrightarrow> ConsoleError ''gCalId not defined for the event'' \<in> set tr)"
proof -
  from pe obtain gid where gid: "truthy (p_gCalEventId pe) = Some gid"
    by (auto simp: falsy_def)
  from pe have cid: "truthy (p_gCalId pe) = None" by (simp add: falsy_def)
  have step: "fetchLoop ad (pe # prest) acc' w1 =
      emit [ConsoleError ''gCalId not defined for the event''] (fetchLoop ad prest acc' w1)"
    for acc' w1
    using pe(1) gid cid by simp
  obtain ra wa ta where a: "fetchLoop ad pxs acc w = (ra, wa, ta)"
    by (cases "fetchLoop ad pxs acc w")
  show ?thesis
  proof (cases ra)
    case (Inl err)
    with a run have "r = Inl err" "w' = wa" "tr = ta"
      by (simp_all add: fetchLoop_append)
    moreover from a Inl run0 have "r0 = Inl err" "w0 = wa" "tr0 = ta"
      by (simp_all add: fetchLoop_append)
    ultimately show ?thesis by simp
  next
    case (Inr acc')
    obtain rb wb tb where b: "fetchLoop ad prest acc' wa = (rb, wb, tb)"
      by (cases "fetchLoop ad prest acc' wa")
    from a Inr b run have "r = rb" "w' = wb"
      "tr = ta @ ConsoleError ''gCalId not defined for the event'' # tb"
      by (simp_all add: fetchLoop_append step del: fetchLoop.simps(2))
    moreover from a Inr b run0 have "r0 = rb" "w0 = wb" "tr0 = ta @ tb"
      by (simp_all add: fetchLoop_append)
    ultimately show ?thesis by (simp add: adapter_calls_def)
  qed
qed

lemma fetchLoop_no_skip:
  "fetchLoop ad ps acc w = (Inr out, w', tr) \<Longrightarrow>
   \<forall>p\<in>set ps. p_isDeleted p \<or> (\<not> falsy (p_gCalId p) \<and> \<not> falsy (p_gCalEventId p)) \<Longrightarrow>
   map databaseId out = map databaseId acc @ map databaseId ps"
proof (induction ps arbitrary: acc w tr)
  case Nil
  then show ?case by simp
next
  case (Cons p ps)
  from Cons.prems(2) have rest:
    "\<forall>p\<in>set ps. p_isDeleted p \<or> (\<not> falsy (p_gCalId p) \<and> \<not> falsy (p_gCalEventId p))"
    by simp
  from Cons.prems(1) show ?case
  proof (cases rule: fetchLoop_Cons_cases)
    case deleted
    from Cons.IH[OF deleted(2) rest] show ?thesis by simp
  next
    case (skipped msg tr0)
    with Cons.prems(2) show ?thesis by auto
  next
    case (rejected calendarId gid err)
    then show ?thesis by simp
  next
    case (fetched calendarId gid ev w1 tr0)
    from Cons.IH[OF fetched(5) rest] show ?thesis by simp
  qed
qed

lemma fetchLoop_rejection_source:
  "fetchLoop ad ps acc w = (Inl err, w', tr) \<Longrightarrow>
   \<exists>calendarId gid. CallGetEvent calendarId gid (Inl err) \<in> set tr"
proof (induction ps arbitrary: acc w tr)
  case Nil
  then show ?case by simp
next
  case (Cons p ps)
  from Cons.prems(1) show ?case
  proof (cases rule: fetchLoop_Cons_cases)
    case deleted
    from Cons.IH[OF deleted(2)] show ?thesis .
  next
    case (skipped msg tr0)
    from Cons.IH[OF skipped(3)] skipped(4) show ?thesis by auto
  next
    case (rejected calendarId gid err')
    then show ?thesis by auto
  next
    case (fetched calendarId gid ev w1 tr0)
    from Cons.IH[OF fetched(5)] fetched(6) show ?thesis by auto
  qed
qed

text \<open>
  The array the loop leaves: one element for every payload that is deleted or has both
  remote ids, in order; a deleted payload as it is, another one with the attendees of
  its own fetch.
\<close>

lemma fetchLoop_exact:
  "fetchLoop ad ps acc w = (Inr out, w', tr) \<Longrightarrow>
   \<exists>out'. out = acc @ out' \<and>
     list_all2
       (\<lambda>p q. if p_isDeleted p then q = p
              else \<exists>calendarId gid ev.
                     p_gCalId p = Some calendarId \<and> p_gCalEventId p = Some gid
                   \<and> CallGetEvent calendarId gid (Inr ev) \<in> set tr
                   \<and> q = p\<lparr>attendees := Some (case g_attendees ev of None \<Rightarrow> [] | Some a \<Rightarrow> a)\<rparr>)
       (filter (\<lambda>p. p_isDeleted p \<or> (\<not> falsy (p_gCalId p) \<and> \<not> falsy (p_gCalEventId p))) ps)
       out'"
proof (induction ps arbitrary: acc w tr)
  case Nil
  then show ?case by simp
next
  case (Cons p ps)
  let ?keep = "\<lambda>p. p_isDeleted p \<or> (\<not> falsy (p_gCalId p) \<and> \<not> falsy (p_gCalEventId p))"
  let ?R = "\<lambda>tr p q. if p_isDeleted p then q = p
              else \<exists>calendarId gid ev.
                     p_gCalId p = Some calendarId \<and> p_gCalEventId p = Some gid
                   \<and> CallGetEvent calendarId gid (Inr ev) \<in> set tr
                   \<and> q = p\<lparr>attendees := Some (case g_attendees ev of None \<Rightarrow> [] | Some a \<Rightarrow> a)\<rparr>"
  have mono: "list_all2 (?R (a # tr0)) xs ys" if "list_all2 (?R tr0) xs ys" for a tr0 xs ys
    using that by (rule list_all2_mono) (auto split: if_splits)
  from Cons.prems(1) show ?case
  proof (cases rule: fetchLoop_Cons_cases)
    case deleted
    from Cons.IH[OF deleted(2)] obtain out' where
      o: "out = (acc @ [p]) @ out'" "list_all2 (?R tr) (filter ?keep ps) out'" by blast
    have f: "filter ?keep (p # ps) = p # filter ?keep ps" using deleted(1) by simp
    have head: "?R tr p p" using deleted(1) by simp
    have "list_all2 (?R tr) (filter ?keep (p # ps)) (p # out')"
      unfolding f using head o(2) by (rule list.rel_intros(2))
    moreover from o(1) have "out = acc @ (p # out')" by simp
    ultimately show ?thesis by blast
  next
    case (skipped msg tr0)
    from Cons.IH[OF skipped(3)] obtain out' where
      o: "out = acc @ out'" "list_all2 (?R tr0) (filter ?keep ps) out'" by blast
    have f: "filter ?keep (p # ps) = filter ?keep ps" using skipped(1,2) by auto
    have "list_all2 (?R tr) (filter ?keep (p # ps)) out'"
      unfolding f skipped(4) using o(2) by (rule mono)
    with o(1) show ?thesis by blast
  next
    case (rejected calendarId gid err)
    then show ?thesis by simp
  next
    case (fetched calendarId gid ev w1 tr0)
    let ?q = "p\<lparr>attendees := Some (case g_attendees ev of None \<Rightarrow> [] | Some a \<Rightarrow> a)\<rparr>"
    from Cons.IH[OF fetched(5)] obtain out' where
      o: "out = (acc @ [?q]) @ out'" "list_all2 (?R tr0) (filter ?keep ps) out'" by blast
    from truthy_Some[OF fetched(2)] truthy_Some[OF fetched(3)]
    have ids: "p_gCalId p = Some calendarId" "p_gCalEventId p = Some gid"
      "\<not> falsy (p_gCalId p)" "\<not> falsy (p_gCalEventId p)"
      using fetched(2,3) by (simp_all add: falsy_def)
    have f: "filter ?keep (p # ps) = p # filter ?keep ps" using ids(3,4) by simp
    have "CallGetEvent calendarId gid (Inr ev) \<in> set tr" unfolding fetched(6) by simp
    with fetched(1) ids(1,2) have head: "?R tr p ?q" by auto
    have rest: "list_all2 (?R tr) (filter ?keep ps) out'"
      unfolding fetched(6) using o(2) by (rule mono)
    have "list_all2 (?R tr) (filter ?keep (p # ps)) (?q # out')"
      unfolding f using head rest by (rule list.rel_intros(2))
    moreover from o(1) have "out = acc @ (?q # out')" by simp
    ultimately show ?thesis by blast
  qed
qed

subsection \<open>The update calls and the returned pairs\<close>

lemma issueUpdates_shape:
  "issueUpdates ad es w = (rs, w', tr) \<Longrightarrow>
   length rs = length es \<and>
   tr = map (\<lambda>(e, r). CallEventsUpdate \<lparr>eventId = p_gCalEventId e, requestBody = e\<rparr> r) (zip es rs)"
proof (induction es arbitrary: w rs tr)
  case Nil
  then show ?case by simp
next
  case (Cons e es)
  then show ?case
    by (auto simp: Let_def emit_eq_iff split: prod.splits)
qed

lemma issueUpdates_calls:
  "issueUpdates ad es w = (rs, w', tr) \<Longrightarrow>
   update_calls tr = map (\<lambda>e. \<lparr>eventId = p_gCalEventId e, requestBody = e\<rparr>) es"
proof (induction es arbitrary: w rs tr)
  case Nil
  then show ?case by simp
next
  case (Cons e es)
  then show ?case
    by (auto simp: Let_def emit_eq_iff split: prod.splits)
qed

lemma issueUpdates_mem:
  "issueUpdates ad es w = (rs, w', tr) \<Longrightarrow> a \<in> set tr \<Longrightarrow>
   \<exists>e\<in>set es. \<exists>r\<in>set rs. a = CallEventsUpdate \<lparr>eventId = p_gCalEventId e, requestBody = e\<rparr> r"
proof (induction es arbitrary: w rs tr)
  case Nil
  then show ?case by simp
next
  case (Cons e es)
  then show ?case
    by (fastforce simp: Let_def emit_eq_iff split: prod.splits)
qed

lemma issueUpdates_no_fetch:
  "issueUpdates ad es w = (rs, w', tr) \<Longrightarrow> getEvent_calls tr = []"
proof (induction es arbitrary: w rs tr)
  case Nil
  then show ?case by simp
next
  case (Cons e es)
  then show ?case
    by (auto simp: Let_def emit_eq_iff split: prod.splits)
qed

lemma promise_all_isl: "isl (promise_all rs) \<longleftrightarrow> (\<exists>r\<in>set rs. isl r)"
  by (induction rs rule: promise_all.induct) (auto split: sum.splits)

lemma promise_all_Inr: "promise_all rs = Inr vs \<Longrightarrow> rs = map Inr vs"
  by (induction rs arbitrary: vs rule: promise_all.induct) (auto split: sum.splits)

lemma pair_ids_calendar: "map calendarEventId (pair_ids allEvents us) = map data_id us"
  by (simp add: pair_ids_def o_def split_def map_snd_enumerate
        flip: map_map[of data_id snd, unfolded o_def])

lemma pair_ids_database:
  "length us = length allEvents \<Longrightarrow>
   map databaseEventId (pair_ids allEvents us) = map (\<lambda>e. Some (event_id e)) allEvents"
proof -
  assume len: "length us = length allEvents"
  have "map databaseEventId (pair_ids allEvents us)
      = map (\<lambda>x. map_option event_id (nth_opt allEvents (fst x))) (enumerate 0 us)"
    by (simp add: pair_ids_def split_def o_def)
  also have "\<dots> = map (\<lambda>key. map_option event_id (nth_opt allEvents key))
                     (map fst (enumerate 0 us))"
    by (simp only: map_map o_def)
  also have "\<dots> = map (\<lambda>key. map_option event_id (nth_opt allEvents key)) [0..<length allEvents]"
    by (simp add: len)
  also have "\<dots> = map (\<lambda>key. Some (event_id (allEvents ! key))) [0..<length allEvents]"
    by (rule map_cong) (simp_all add: nth_opt_def)
  also have "\<dots> = map (\<lambda>e. Some (event_id e)) (map (nth allEvents) [0..<length allEvents])"
    by (simp add: o_def)
  also have "\<dots> = map (\<lambda>e. Some (event_id e)) allEvents"
    by (simp only: map_nth)
  finally show ?thesis .
qed

subsection \<open>The stages of updateEvents\<close>

lemma updateEvents_cases:
  assumes "updateEvents ad toString events reqHost w = (res, w', tr)"
  obtains
    (parse_error) err where
      "parseEvents toString (updated events @ mark_deleted (deleted events)) reqHost = Inl err"
      "res = Inl err" "w' = w" "tr = []"
  | (calendar_error) parsed err where
      "parseEvents toString (updated events @ mark_deleted (deleted events)) reqHost = Inr parsed"
      "getCalendar ad w = (Inl err, w')" "res = Inl err" "tr = [CallGetCalendar (Inl err)]"
  | (fetch_error) parsed c w1 err tr1 where
      "parseEvents toString (updated events @ mark_deleted (deleted events)) reqHost = Inr parsed"
      "getCalendar ad w = (Inr c, w1)"
      "fetchLoop ad parsed [] w1 = (Inl err, w', tr1)"
      "res = Inl err" "tr = CallGetCalendar (Inr c) # tr1"
  | (updates) parsed c w1 out w2 tr1 rs tr2 where
      "parseEvents toString (updated events @ mark_deleted (deleted events)) reqHost = Inr parsed"
      "getCalendar ad w = (Inr c, w1)"
      "fetchLoop ad parsed [] w1 = (Inr out, w2, tr1)"
      "issueUpdates ad out w2 = (rs, w', tr2)"
      "res = map_sum id (pair_ids (updated events @ mark_deleted (deleted events))) (promise_all rs)"
      "tr = CallGetCalendar (Inr c) # tr1 @ tr2"
  using assms unfolding updateEvents_def Let_def
  by (auto simp: emit_eq_iff split: sum.splits prod.splits)

text \<open>An update request in the run of \<open>updateEvents\<close> comes from the update stage.\<close>

lemma updateEvents_update_stage:
  assumes "updateEvents ad toString events reqHost w = (res, w', tr)"
      and "CallEventsUpdate params r \<in> set tr"
  obtains parsed c w1 out w2 tr1 rs tr2 where
      "parseEvents toString (updated events @ mark_deleted (deleted events)) reqHost = Inr parsed"
      "getCalendar ad w = (Inr c, w1)"
      "fetchLoop ad parsed [] w1 = (Inr out, w2, tr1)"
      "issueUpdates ad out w2 = (rs, w', tr2)"
      "res = map_sum id (pair_ids (updated events @ mark_deleted (deleted events))) (promise_all rs)"
      "tr = CallGetCalendar (Inr c) # tr1 @ tr2"
      "CallEventsUpdate params r \<in> set tr2"
  using assms(1)
proof (cases rule: updateEvents_cases)
  case (parse_error err)
  with assms(2) show ?thesis by simp
next
  case (calendar_error parsed err)
  with assms(2) show ?thesis by simp
next
  case (fetch_error parsed c w1 err tr1)
  with assms(2) fetchLoop_mem[OF fetch_error(3), of "CallEventsUpdate params r"]
  show ?thesis by auto
next
  case (updates parsed c w1 out w2 tr1 rs tr2)
  with assms(2) fetchLoop_mem[OF updates(3), of "CallEventsUpdate params r"]
  have "CallEventsUpdate params r \<in> set tr2" by auto
  with updates that show ?thesis by blast
qed

text \<open>
  When the loop skips no event, the pairs are aligned: the local id of the i-th pair is
  the \<open>databaseId\<close> of the payload of the i-th update call.
\<close>

lemma updateEvents_pairs_aligned_without_skip:
  assumes run: "updateEvents ad toString events reqHost w = (Inr ids, w', tr)"
      and noskip: "\<forall>e \<in> set (updated events @ mark_deleted (deleted events)).
                     isDeleted e \<or> \<not> falsy (gCalId e)"
  shows "map databaseEventId ids
           = map (\<lambda>params. Some (databaseId (requestBody params))) (update_calls tr)"
  using run
proof (cases rule: updateEvents_cases)
  case (updates parsed c w1 out w2 tr1 rs tr2)
  let ?all = "updated events @ mark_deleted (deleted events)"
  let ?f = "parseEvent toString (protocol_of reqHost) reqHost"
  have l2: "list_all2 (\<lambda>e p. ?f e = Inr p) ?all parsed"
    using updates(1) unfolding parseEvents_def Let_def by (rule mapE_list_all2)
  have ids_parsed: "map databaseId parsed = map event_id ?all"
    using l2 by (induction rule: list_all2_induct) (auto dest: parseEvent_Inr)
  have "\<forall>p\<in>set parsed. p_isDeleted p \<or> (\<not> falsy (p_gCalId p) \<and> \<not> falsy (p_gCalEventId p))"
  proof
    fix p assume "p \<in> set parsed"
    from mapE_Inr_set[OF updates(1)[unfolded parseEvents_def Let_def] this]
    obtain e where "e \<in> set ?all" "?f e = Inr p" by blast
    with noskip parseEvent_Inr[OF this(2)]
    show "p_isDeleted p \<or> (\<not> falsy (p_gCalId p) \<and> \<not> falsy (p_gCalEventId p))"
      by auto
  qed
  from fetchLoop_no_skip[OF updates(3) this] ids_parsed
  have out: "map databaseId out = map event_id ?all" by simp
  then have len: "length out = length ?all" by (metis length_map)
  from updates(5) obtain us where us: "promise_all rs = Inr us" "ids = pair_ids ?all us"
    by (cases "promise_all rs") auto
  from promise_all_Inr[OF us(1)] issueUpdates_shape[OF updates(4)] len
  have "length us = length ?all" by (metis length_map)
  from pair_ids_database[OF this] us(2)
  have "map databaseEventId ids = map (\<lambda>e. Some (event_id e)) ?all" by simp
  also have "\<dots> = map Some (map databaseId out)" unfolding out by simp
  also have "\<dots> = map (\<lambda>params. Some (databaseId (requestBody params))) (update_calls tr)"
    using updates(6) fetchLoop_no_updates[OF updates(3)] issueUpdates_calls[OF updates(4)]
    by (simp add: o_def)
  finally show ?thesis .
qed simp_all

lemma updateEvents_titles_and_fetches:
  assumes "updateEvents ad toString events reqHost w = (res, w', tr)"
  shows "(\<forall>params \<in> set (update_calls tr).
            \<exists>e \<in> set (updated events @ mark_deleted (deleted events)).
               databaseId (requestBody params) = event_id e
             \<and> p_isDeleted (requestBody params) = isDeleted e
             \<and> summary (requestBody params)
                 = (if isDeleted e then ''CANCELLED: '' @ title e else title e)
             \<and> (isDeleted e \<longrightarrow> attendees (requestBody params) = None))
       \<and> prefix (map (\<lambda>(calendarId, gid). (Some calendarId, Some gid)) (getEvent_calls tr))
                (map (\<lambda>e. (gCalId e, gCalEventId e))
                   (filter (\<lambda>e. \<not> isDeleted e \<and> \<not> falsy (gCalId e))
                      (updated events @ mark_deleted (deleted events))))"
  using assms
proof (cases rule: updateEvents_cases)
  case (parse_error err)
  then show ?thesis by simp
next
  case (calendar_error parsed err)
  then show ?thesis by simp
next
  case (fetch_error parsed c w1 err tr1)
  from fetchLoop_getEvent_prefix[OF fetch_error(3)] parsed_fetch_candidates[OF fetch_error(1)]
    fetchLoop_no_updates[OF fetch_error(3)] fetch_error(5)
  show ?thesis by simp
next
  case (updates parsed c w1 out w2 tr1 rs tr2)
  let ?all = "updated events @ mark_deleted (deleted events)"
  let ?f = "parseEvent toString (protocol_of reqHost) reqHost"
  have calls: "update_calls tr = map (\<lambda>e. \<lparr>eventId = p_gCalEventId e, requestBody = e\<rparr>) out"
    using updates(6) fetchLoop_no_updates[OF updates(3)] issueUpdates_calls[OF updates(4)]
    by simp
  have fetches: "getEvent_calls tr = getEvent_calls tr1"
    using updates(6) issueUpdates_no_fetch[OF updates(4)] by simp
  have payload: "\<exists>e \<in> set ?all.
               databaseId b = event_id e \<and> p_isDeleted b = isDeleted e
             \<and> summary b = (if isDeleted e then ''CANCELLED: '' @ title e else title e)
             \<and> (isDeleted e \<longrightarrow> attendees b = None)"
    if "b \<in> set out" for b
  proof -
    from fetchLoop_out[OF updates(3) that]
    obtain p where p: "p \<in> set parsed"
      and b: "databaseId b = databaseId p" "p_isDeleted b = p_isDeleted p"
             "summary b = summary p" "p_isDeleted p \<longrightarrow> b = p"
      by auto
    from mapE_Inr_set[OF updates(1)[unfolded parseEvents_def Let_def] p]
    obtain e where e: "e \<in> set ?all" "?f e = Inr p" by blast
    from parseEvent_Inr[OF e(2)] b e(1) show ?thesis
      by (intro bexI[of _ e]) auto
  qed
  have first: "\<forall>params \<in> set (update_calls tr).
            \<exists>e \<in> set ?all.
               databaseId (requestBody params) = event_id e
             \<and> p_isDeleted (requestBody params) = isDeleted e
             \<and> summary (requestBody params)
                 = (if isDeleted e then ''CANCELLED: '' @ title e else title e)
             \<and> (isDeleted e \<longrightarrow> attendees (requestBody params) = None)"
    unfolding calls using payload by auto
  from fetchLoop_getEvent_prefix[OF updates(3)] parsed_fetch_candidates[OF updates(1)] fetches
  have second: "prefix (map (\<lambda>(calendarId, gid). (Some calendarId, Some gid)) (getEvent_calls tr))
                (map (\<lambda>e. (gCalId e, gCalEventId e))
                   (filter (\<lambda>e. \<not> isDeleted e \<and> \<not> falsy (gCalId e)) ?all))"
    by simp
  from first second show ?thesis by blast
qed

lemma updateEvents_payload_from_fetch:
  assumes "updateEvents ad toString events reqHost w = (res, w', tr)"
      and "CallEventsUpdate params r \<in> set tr"
      and "\<not> p_isDeleted (requestBody params)"
  shows "\<exists>calendarId gid ev.
           CallGetEvent calendarId gid (Inr ev) \<in> set tr
         \<and> p_gCalId (requestBody params) = Some calendarId
         \<and> p_gCalEventId (requestBody params) = Some gid
         \<and> attendees (requestBody params)
             = Some (case g_attendees ev of None \<Rightarrow> [] | Some a \<Rightarrow> a)"
  using assms(1,2)
proof (cases rule: updateEvents_update_stage)
  case (1 parsed c w1 out w2 tr1 rs tr2)
  from issueUpdates_mem[OF 1(4) 1(7)] have mem: "requestBody params \<in> set out" by auto
  from fetchLoop_out[OF 1(3) mem] assms(3)
  obtain p calendarId gid ev where
    "truthy (p_gCalId p) = Some calendarId" "truthy (p_gCalEventId p) = Some gid"
    "CallGetEvent calendarId gid (Inr ev) \<in> set tr1"
    "requestBody params = p\<lparr>attendees := Some (case g_attendees ev of None \<Rightarrow> [] | Some a \<Rightarrow> a)\<rparr>"
    by auto
  with 1(6) truthy_Some[of "p_gCalId p" calendarId] truthy_Some[of "p_gCalEventId p" gid]
  show ?thesis by (intro exI[of _ calendarId] exI[of _ gid] exI[of _ ev]) simp
qed

lemma updateEvents_updates_exact:
  assumes run: "updateEvents ad toString events reqHost w = (res, w', tr)"
      and cal: "CallGetCalendar (Inr c) \<in> set tr"
      and fetched: "\<forall>calendarId gid err. CallGetEvent calendarId gid (Inl err) \<notin> set tr"
  shows "list_all2
           (\<lambda>e params. eventId params = gCalEventId e
              \<and> (\<exists>p. parseEvent toString (protocol_of reqHost) reqHost e = Inr p
                   \<and> (if isDeleted e then requestBody params = p
                       else \<exists>calendarId gid ev.
                              gCalId e = Some calendarId \<and> gCalEventId e = Some gid
                            \<and> CallGetEvent calendarId gid (Inr ev) \<in> set tr
                            \<and> requestBody params
                                = p\<lparr>attendees :=
                                     Some (case g_attendees ev of None \<Rightarrow> [] | Some a \<Rightarrow> a)\<rparr>)))
           (filter (\<lambda>e. isDeleted e \<or> \<not> falsy (gCalId e))
              (updated events @ mark_deleted (deleted events)))
           (update_calls tr)"
  using run
proof (cases rule: updateEvents_cases)
  case (parse_error err)
  with cal show ?thesis by simp
next
  case (calendar_error parsed err)
  with cal show ?thesis by simp
next
  case (fetch_error parsed c' w1 err tr1)
  from fetchLoop_rejection_source[OF fetch_error(3)] fetch_error(5) fetched
  show ?thesis by auto
next
  case (updates parsed c' w1 out w2 tr1 rs tr2)
  let ?all = "updated events @ mark_deleted (deleted events)"
  let ?f = "parseEvent toString (protocol_of reqHost) reqHost"
  let ?keepE = "\<lambda>e. isDeleted e \<or> \<not> falsy (gCalId e)"
  let ?keepP = "\<lambda>p. p_isDeleted p \<or> (\<not> falsy (p_gCalId p) \<and> \<not> falsy (p_gCalEventId p))"
  let ?R = "\<lambda>tr p q. if p_isDeleted p then q = p
              else \<exists>calendarId gid ev.
                     p_gCalId p = Some calendarId \<and> p_gCalEventId p = Some gid
                   \<and> CallGetEvent calendarId gid (Inr ev) \<in> set tr
                   \<and> q = p\<lparr>attendees := Some (case g_attendees ev of None \<Rightarrow> [] | Some a \<Rightarrow> a)\<rparr>"
  let ?G = "\<lambda>e q. p_gCalEventId q = gCalEventId e
              \<and> (\<exists>p. ?f e = Inr p
                   \<and> (if isDeleted e then q = p
                       else \<exists>calendarId gid ev.
                              gCalId e = Some calendarId \<and> gCalEventId e = Some gid
                            \<and> CallGetEvent calendarId gid (Inr ev) \<in> set tr
                            \<and> q = p\<lparr>attendees :=
                                     Some (case g_attendees ev of None \<Rightarrow> [] | Some a \<Rightarrow> a)\<rparr>))"
  have calls: "update_calls tr = map (\<lambda>e. \<lparr>eventId = p_gCalEventId e, requestBody = e\<rparr>) out"
    using updates(6) fetchLoop_no_updates[OF updates(3)] issueUpdates_calls[OF updates(4)]
    by simp
  have "list_all2 (\<lambda>e p. ?f e = Inr p) ?all parsed"
    using updates(1) unfolding parseEvents_def Let_def by (rule mapE_list_all2)
  then have l1: "list_all2 (\<lambda>e p. ?f e = Inr p) (filter ?keepE ?all) (filter ?keepP parsed)"
  proof (rule list_all2_filter)
    fix e p assume "?f e = Inr p"
    from parseEvent_Inr[OF this] show "?keepE e = ?keepP p" by simp
  qed
  from fetchLoop_exact[OF updates(3)]
  have "list_all2 (?R tr1) (filter ?keepP parsed) out" by simp
  then have l2: "list_all2 (?R tr) (filter ?keepP parsed) out"
    by (rule list_all2_mono) (auto simp: updates(6) split: if_splits)
  have "list_all2 ?G (filter ?keepE ?all) out"
  proof (rule list_all2_trans[OF _ l1 l2])
    fix e p q assume fe: "?f e = Inr p" and r: "?R tr p q"
    from parseEvent_Inr[OF fe]
    have pe: "p_isDeleted p = isDeleted e" "p_gCalId p = gCalId e"
      "p_gCalEventId p = gCalEventId e" by simp_all
    show "?G e q"
    proof (cases "isDeleted e")
      case True
      with r pe fe show ?thesis by auto
    next
      case False
      with r pe obtain calendarId gid ev where
        "gCalId e = Some calendarId" "gCalEventId e = Some gid"
        "CallGetEvent calendarId gid (Inr ev) \<in> set tr"
        "q = p\<lparr>attendees := Some (case g_attendees ev of None \<Rightarrow> [] | Some a \<Rightarrow> a)\<rparr>"
        by auto
      with False fe pe(3) show ?thesis by auto
    qed
  qed
  then show ?thesis unfolding calls list_all2_map2
    by (rule list_all2_mono) (auto split: if_splits)
qed

subsection \<open>The marking loop\<close>

lemma markLoop_Cons_cases:
  assumes "markLoop sv email' (ev # rest) w = (res, w', tr)"
  obtains
    (lookup_rejected) err where
      "user_findUnique sv email' w = (Inl err, w')" "res = Inl err"
      "tr = [CallFindUnique email' (Inl err)]"
  | (no_user)
      "user_findUnique sv email' w = (Inr None, w')" "res = Inr ()"
      "tr = [CallFindUnique email' (Inr None)]"
  | (update_thrown) userId w1 err w2 tr0 where
      "user_findUnique sv email' w = (Inr (Some userId), w1)"
      "rsvp_update sv ev (user_id userId) w1 = (Inl err, w2)"
      "markLoop sv email' rest w2 = (res, w', tr0)"
      "tr = CallFindUnique email' (Inr (Some userId))
              # CallRsvpUpdate ev (user_id userId) (Inl err) # ConsoleErrorObj err # tr0"
  | (updated) userId w1 ok w2 tr0 where
      "user_findUnique sv email' w = (Inr (Some userId), w1)"
      "rsvp_update sv ev (user_id userId) w1 = (Inr ok, w2)"
      "markLoop sv email' rest w2 = (res, w', tr0)"
      "tr = CallFindUnique email' (Inr (Some userId))
              # CallRsvpUpdate ev (user_id userId) (Inr ok) # tr0"
proof -
  obtain a w1 where f: "user_findUnique sv email' w = (a, w1)"
    by (cases "user_findUnique sv email' w")
  show ?thesis
  proof (cases a)
    case (Inl err)
    with f assms show ?thesis by (intro lookup_rejected) auto
  next
    case (Inr found)
    show ?thesis
    proof (cases found)
      case None
      with f Inr assms show ?thesis by (intro no_user) auto
    next
      case (Some userId)
      obtain b w2 where u: "rsvp_update sv ev (user_id userId) w1 = (b, w2)"
        by (cases "rsvp_update sv ev (user_id userId) w1")
      show ?thesis
      proof (cases b)
        case (Inl err)
        with f Inr Some u assms obtain tr0 where
          "markLoop sv email' rest w2 = (res, w', tr0)"
          "tr = CallFindUnique email' (Inr (Some userId))
              # CallRsvpUpdate ev (user_id userId) (Inl err) # ConsoleErrorObj err # tr0"
          by (auto simp: emit_eq_iff)
        with f Inr Some u Inl show ?thesis by (intro update_thrown) auto
      next
        case (Inr ok)
        with f \<open>a = Inr found\<close> Some u assms obtain tr0 where
          "markLoop sv email' rest w2 = (res, w', tr0)"
          "tr = CallFindUnique email' (Inr (Some userId))
              # CallRsvpUpdate ev (user_id userId) (Inr ok) # tr0"
          by (auto simp: emit_eq_iff)
        with f \<open>a = Inr found\<close> Some u Inr show ?thesis by (intro updated) auto
      qed
    qed
  qed
qed

lemma markLoop_thrown_logged:
  "markLoop sv email' evs w = (res, w', tr) \<Longrightarrow>
   CallRsvpUpdate ev uid (Inl err) \<in> set tr \<Longrightarrow>
   \<exists>t1 t2. tr = t1 @ CallRsvpUpdate ev uid (Inl err) # ConsoleErrorObj err # t2"
proof (induction evs arbitrary: w tr)
  case Nil
  then show ?case by simp
next
  case (Cons e evs)
  from Cons.prems(1) show ?case
  proof (cases rule: markLoop_Cons_cases)
    case (lookup_rejected err')
    with Cons.prems(2) show ?thesis by simp
  next
    case no_user
    with Cons.prems(2) show ?thesis by simp
  next
    case (update_thrown userId w1 err' w2 tr0)
    show ?thesis
    proof (cases "CallRsvpUpdate ev uid (Inl err) \<in> set tr0")
      case True
      from Cons.IH[OF update_thrown(3) True] obtain t1 t2 where
        "tr0 = t1 @ CallRsvpUpdate ev uid (Inl err) # ConsoleErrorObj err # t2" by blast
      with update_thrown(4)
      have "tr = ([CallFindUnique email' (Inr (Some userId)),
                   CallRsvpUpdate e (user_id userId) (Inl err'), ConsoleErrorObj err'] @ t1)
                 @ CallRsvpUpdate ev uid (Inl err) # ConsoleErrorObj err # t2"
        by simp
      then show ?thesis by blast
    next
      case False
      with Cons.prems(2) update_thrown(4)
      have "e = ev" "user_id userId = uid" "err' = err" by auto
      with update_thrown(4)
      have "tr = [CallFindUnique email' (Inr (Some userId))]
                 @ CallRsvpUpdate ev uid (Inl err) # ConsoleErrorObj err # tr0"
        by simp
      then show ?thesis by blast
    qed
  next
    case (updated userId w1 ok w2 tr0)
    with Cons.prems(2) have "CallRsvpUpdate ev uid (Inl err) \<in> set tr0" by auto
    from Cons.IH[OF updated(3) this] obtain t1 t2 where
      "tr0 = t1 @ CallRsvpUpdate ev uid (Inl err) # ConsoleErrorObj err # t2" by blast
    with updated(4)
    have "tr = ([CallFindUnique email' (Inr (Some userId)),
                 CallRsvpUpdate e (user_id userId) (Inr ok)] @ t1)
               @ CallRsvpUpdate ev uid (Inl err) # ConsoleErrorObj err # t2"
      by simp
    then show ?thesis by blast
  qed
qed

lemma markLoop_rejection_source:
  "markLoop sv email' evs w = (Inl err, w', tr) \<Longrightarrow> CallFindUnique email' (Inl err) \<in> set tr"
proof (induction evs arbitrary: w tr)
  case Nil
  then show ?case by simp
next
  case (Cons e evs)
  from Cons.prems(1) show ?case
  proof (cases rule: markLoop_Cons_cases)
    case (lookup_rejected err')
    then show ?thesis by simp
  next
    case no_user
    then show ?thesis by simp
  next
    case (update_thrown userId w1 err' w2 tr0)
    from Cons.IH[OF update_thrown(3)] update_thrown(4) show ?thesis by simp
  next
    case (updated userId w1 ok w2 tr0)
    from Cons.IH[OF updated(3)] updated(4) show ?thesis by simp
  qed
qed

lemma markLoop_calls_prefix:
  "markLoop sv email' evs w = (res, w', tr) \<Longrightarrow> prefix (rsvp_update_calls tr) evs"
proof (induction evs arbitrary: w tr)
  case Nil
  then show ?case by simp
next
  case (Cons e evs)
  from Cons.prems(1) show ?case
  proof (cases rule: markLoop_Cons_cases)
    case (lookup_rejected err')
    then show ?thesis by simp
  next
    case no_user
    then show ?thesis by simp
  next
    case (update_thrown userId w1 err' w2 tr0)
    from Cons.IH[OF update_thrown(3)] update_thrown(4) show ?thesis by simp
  next
    case (updated userId w1 ok w2 tr0)
    from Cons.IH[OF updated(3)] updated(4) show ?thesis by simp
  qed
qed

lemma markLoop_all_attempted:
  "markLoop sv email' evs w = (res, w', tr) \<Longrightarrow>
   \<forall>r. CallFindUnique email' r \<in> set tr \<longrightarrow> (\<exists>u. r = Inr (Some u)) \<Longrightarrow>
   res = Inr () \<and> rsvp_update_calls tr = evs"
proof (induction evs arbitrary: w tr)
  case Nil
  then show ?case by simp
next
  case (Cons e evs)
  from Cons.prems(1) show ?case
  proof (cases rule: markLoop_Cons_cases)
    case (lookup_rejected err')
    with Cons.prems(2) show ?thesis by auto
  next
    case no_user
    with Cons.prems(2) show ?thesis by auto
  next
    case (update_thrown userId w1 err' w2 tr0)
    from Cons.prems(2) update_thrown(4)
    have "\<forall>r. CallFindUnique email' r \<in> set tr0 \<longrightarrow> (\<exists>u. r = Inr (Some u))" by simp
    from Cons.IH[OF update_thrown(3) this] update_thrown(4) show ?thesis by simp
  next
    case (updated userId w1 ok w2 tr0)
    from Cons.prems(2) updated(4)
    have "\<forall>r. CallFindUnique email' r \<in> set tr0 \<longrightarrow> (\<exists>u. r = Inr (Some u))" by simp
    from Cons.IH[OF updated(3) this] updated(4) show ?thesis by simp
  qed
qed

subsection \<open>Runs on the sample inputs\<close>

text \<open>Unfolding the code and the sample inputs, for evaluation.\<close>

lemmas sample_defs =
  sample_event_def sample_user_def sample_toString_def sample_adapter_def sample_attendee_def
  sample_event_no_attendees_def sample_event_no_calendar_def sample_event_rejected_def
  sample_event_no_remote_def sample_payload_def

lemmas code_defs =
  updateEvents_def parseEvents_def parseEvent_def protocol_of_def falsy_def truthy_def
  template_str_def pair_ids_def nth_opt_def mark_deleted_def Let_def

lemma sample_run_attendees:
  "updateEvents sample_adapter sample_toString
     \<lparr>updated = [sample_event, sample_event_no_attendees], deleted = []\<rparr> ''example.com'' 0 =
   (Inr [\<lparr>calendarEventId = Some ''g1'', databaseEventId = Some ''e1''\<rparr>,
         \<lparr>calendarEventId = Some ''g-none'', databaseEventId = Some ''e2''\<rparr>], 5,
    [CallGetCalendar (Inr ()),
     CallGetEvent ''cal'' ''g1'' (Inr \<lparr>g_attendees = Some [sample_attendee]\<rparr>),
     CallGetEvent ''cal'' ''g-none'' (Inr \<lparr>g_attendees = None\<rparr>),
     CallEventsUpdate
       \<lparr>eventId = Some ''g1'',
        requestBody = sample_payload\<lparr>attendees := Some [sample_attendee]\<rparr>\<rparr>
       (Inr \<lparr>data_id = Some ''g1''\<rparr>),
     CallEventsUpdate
       \<lparr>eventId = Some ''g-none'',
        requestBody = sample_payload\<lparr>databaseId := ''e2'', p_gCalEventId := Some ''g-none'',
                                     attendees := Some []\<rparr>\<rparr>
       (Inr \<lparr>data_id = Some ''g-none''\<rparr>)])"
  by (simp add: code_defs sample_defs)

lemma sample_run_rejected:
  "updateEvents sample_adapter sample_toString
     \<lparr>updated = [sample_event_rejected, sample_event], deleted = []\<rparr> ''example.com'' 0 =
   (Inl (Error ''update rejected''), 5,
    [CallGetCalendar (Inr ()),
     CallGetEvent ''cal'' ''g-reject'' (Inr \<lparr>g_attendees = Some [sample_attendee]\<rparr>),
     CallGetEvent ''cal'' ''g1'' (Inr \<lparr>g_attendees = Some [sample_attendee]\<rparr>),
     CallEventsUpdate
       \<lparr>eventId = Some ''g-reject'',
        requestBody = sample_payload\<lparr>databaseId := ''e4'', p_gCalEventId := Some ''g-reject'',
                                     attendees := Some [sample_attendee]\<rparr>\<rparr>
       (Inl (Error ''update rejected'')),
     CallEventsUpdate
       \<lparr>eventId = Some ''g1'',
        requestBody = sample_payload\<lparr>attendees := Some [sample_attendee]\<rparr>\<rparr>
       (Inr \<lparr>data_id = Some ''g1''\<rparr>)])"
  by (simp add: code_defs sample_defs)

lemma sample_run_no_calendar:
  "updateEvents sample_adapter sample_toString
     \<lparr>updated = [sample_event_no_calendar], deleted = [sample_event_no_calendar]\<rparr>
     ''example.com'' 0 =
   (Inr [\<lparr>calendarEventId = Some ''g3'', databaseEventId = Some ''e3''\<rparr>], 2,
    [CallGetCalendar (Inr ()),
     ConsoleError ''gCalId not defined for the event'',
     CallEventsUpdate
       \<lparr>eventId = Some ''g3'',
        requestBody = sample_payload\<lparr>databaseId := ''e3'', p_isDeleted := True,
           p_gCalId := None, p_gCalEventId := Some ''g3'',
           summary := ''CANCELLED: Standup''\<rparr>\<rparr>
       (Inr \<lparr>data_id = Some ''g3''\<rparr>)])"
  by (simp add: code_defs sample_defs)

lemma sample_run_deleted:
  "updateEvents sample_adapter sample_toString
     \<lparr>updated = [sample_event], deleted = [sample_event_no_attendees]\<rparr> ''example.com'' 0 =
   (Inr [\<lparr>calendarEventId = Some ''g1'', databaseEventId = Some ''e1''\<rparr>,
         \<lparr>calendarEventId = Some ''g-none'', databaseEventId = Some ''e2''\<rparr>], 4,
    [CallGetCalendar (Inr ()),
     CallGetEvent ''cal'' ''g1'' (Inr \<lparr>g_attendees = Some [sample_attendee]\<rparr>),
     CallEventsUpdate
       \<lparr>eventId = Some ''g1'',
        requestBody = sample_payload\<lparr>attendees := Some [sample_attendee]\<rparr>\<rparr>
       (Inr \<lparr>data_id = Some ''g1''\<rparr>),
     CallEventsUpdate
       \<lparr>eventId = Some ''g-none'',
        requestBody = sample_payload\<lparr>databaseId := ''e2'', p_isDeleted := True,
           p_gCalEventId := Some ''g-none'', summary := ''CANCELLED: Standup''\<rparr>\<rparr>
       (Inr \<lparr>data_id = Some ''g-none''\<rparr>)])"
  by (simp add: code_defs sample_defs)

lemma sample_run_skip:
  "updateEvents sample_adapter sample_toString
     \<lparr>updated = [sample_event_no_attendees, sample_event_no_calendar, sample_event],
      deleted = []\<rparr> ''example.com'' 0 =
   (Inr [\<lparr>calendarEventId = Some ''g-none'', databaseEventId = Some ''e2''\<rparr>,
         \<lparr>calendarEventId = Some ''g1'', databaseEventId = Some ''e3''\<rparr>], 5,
    [CallGetCalendar (Inr ()),
     CallGetEvent ''cal'' ''g-none'' (Inr \<lparr>g_attendees = None\<rparr>),
     ConsoleError ''gCalId not defined for the event'',
     CallGetEvent ''cal'' ''g1'' (Inr \<lparr>g_attendees = Some [sample_attendee]\<rparr>),
     CallEventsUpdate
       \<lparr>eventId = Some ''g-none'',
        requestBody = sample_payload\<lparr>databaseId := ''e2'', p_gCalEventId := Some ''g-none'',
                                     attendees := Some []\<rparr>\<rparr>
       (Inr \<lparr>data_id = Some ''g-none''\<rparr>),
     CallEventsUpdate
       \<lparr>eventId = Some ''g1'',
        requestBody = sample_payload\<lparr>attendees := Some [sample_attendee]\<rparr>\<rparr>
       (Inr \<lparr>data_id = Some ''g1''\<rparr>)])"
  by (simp add: code_defs sample_defs)

lemma sample_run_skip_removed:
  "updateEvents sample_adapter sample_toString
     \<lparr>updated = [sample_event_no_attendees, sample_event], deleted = []\<rparr> ''example.com'' 0 =
   (Inr [\<lparr>calendarEventId = Some ''g-none'', databaseEventId = Some ''e2''\<rparr>,
         \<lparr>calendarEventId = Some ''g1'', databaseEventId = Some ''e1''\<rparr>], 5,
    [CallGetCalendar (Inr ()),
     CallGetEvent ''cal'' ''g-none'' (Inr \<lparr>g_attendees = None\<rparr>),
     CallGetEvent ''cal'' ''g1'' (Inr \<lparr>g_attendees = Some [sample_attendee]\<rparr>),
     CallEventsUpdate
       \<lparr>eventId = Some ''g-none'',
        requestBody = sample_payload\<lparr>databaseId := ''e2'', p_gCalEventId := Some ''g-none'',
                                     attendees := Some []\<rparr>\<rparr>
       (Inr \<lparr>data_id = Some ''g-none''\<rparr>),
     CallEventsUpdate
       \<lparr>eventId = Some ''g1'',
        requestBody = sample_payload\<lparr>attendees := Some [sample_attendee]\<rparr>\<rparr>
       (Inr \<lparr>data_id = Some ''g1''\<rparr>)])"
  by (simp add: code_defs sample_defs)

lemma sample_run_marking:
  "markLoop sample_services ''ann@example.com'' [''e1'', ''bad'', ''e2'', ''e3''] 0 =
     (Inr (), 8,
      [CallFindUnique ''ann@example.com'' (Inr (Some sample_user)),
       CallRsvpUpdate ''e1'' ''u1'' (Inr ()),
       CallFindUnique ''ann@example.com'' (Inr (Some sample_user)),
       CallRsvpUpdate ''bad'' ''u1'' (Inl (Error ''Record to update not found.'')),
       ConsoleErrorObj (Error ''Record to update not found.''),
       CallFindUnique ''ann@example.com'' (Inr (Some sample_user)),
       CallRsvpUpdate ''e2'' ''u1'' (Inr ()),
       CallFindUnique ''ann@example.com'' (Inr (Some sample_user)),
       CallRsvpUpdate ''e3'' ''u1'' (Inr ())])"
  by (simp add: sample_services_def sample_user_def)

section \<open>The synchronizer rejects a batch with a missing remote event id\<close>

text \<open>
  Claim C3. When some event of the batch, updated or deleted, has no remote event id
  (\<open>gCalEventId\<close> absent or empty), \<open>updateEvents\<close> rejects with the error thrown by
  \<open>parseEvents\<close>; the world is untouched and the run has performed no action at all,
  so neither \<open>getCalendar\<close> nor \<open>getEvent\<close> nor \<open>events.update\<close> has been called.
\<close>

theorem updateEvents_rejects_missing_remote_id:
  assumes "e \<in> set (updated events) \<union> set (deleted events)" and "falsy (gCalEventId e)"
  shows "updateEvents ad toString events reqHost w =
           (Inl (Error ''gCalEventId not found for: [object Object]''), w, [])"
proof -
  have "\<exists>e' \<in> set (updated events @ mark_deleted (deleted events)). falsy (gCalEventId e')"
  proof (cases "e \<in> set (updated events)")
    case True
    with assms(2) show ?thesis by auto
  next
    case False
    with assms(1) have "e \<in> set (deleted events)" by simp
    from mark_deleted_falsy_id[OF this assms(2)] show ?thesis
      by (metis Un_iff set_append)
  qed
  then obtain e' where "e' \<in> set (updated events @ mark_deleted (deleted events))"
      and "falsy (gCalEventId e')"
    by blast
  then have "parseEvents toString (updated events @ mark_deleted (deleted events)) reqHost =
      Inl (Error ''gCalEventId not found for: [object Object]'')"
    by (rule parseEvents_missing_id)
  then show ?thesis by (simp add: updateEvents_def Let_def)
qed

theorem updateEvents_rejects_missing_remote_id_witness:
  "sample_event\<lparr>gCalEventId := None\<rparr>
     \<in> set (updated \<lparr>updated = [sample_event], deleted = [sample_event\<lparr>gCalEventId := None\<rparr>]\<rparr>)
       \<union> set (deleted \<lparr>updated = [sample_event], deleted = [sample_event\<lparr>gCalEventId := None\<rparr>]\<rparr>)
   \<and> falsy (gCalEventId (sample_event\<lparr>gCalEventId := None\<rparr>))
   \<and> updateEvents sample_adapter sample_toString
        \<lparr>updated = [sample_event], deleted = [sample_event\<lparr>gCalEventId := None\<rparr>]\<rparr>
        ''example.com'' (0::nat) =
      (Inl (Error ''gCalEventId not found for: [object Object]''), 0, [])"
  using updateEvents_rejects_missing_remote_id
    [of "sample_event\<lparr>gCalEventId := None\<rparr>"
        "\<lparr>updated = [sample_event], deleted = [sample_event\<lparr>gCalEventId := None\<rparr>]\<rparr>"
        sample_adapter sample_toString "''example.com''" "0::nat"]
  by (simp add: falsy_def truthy_def)

section \<open>The marking loop of the invite handler\<close>

text \<open>
  Claim C4. With two or more event ids in the request, a successful \<open>sendInvite\<close>, and
  a first user lookup that finds no user for the email, the marking loop ends after
  that lookup: the handler answers 200 and its run consists of the \<open>sendInvite\<close> call
  and the single lookup; no \<open>rsvp.update\<close> is attempted for any event.
\<close>

theorem handler_stops_marking_when_user_missing:
  assumes "body_events req = Some (ev1 # ev2 # rest)"
      and "truthy (body_email req) = Some email'"
      and "\<not> falsy prodHost"
      and "sendInvite sv (ev1 # ev2 # rest) email' w = (Inr ok, w1)"
      and "user_findUnique sv email' w1 = (Inr None, w2)"
  shows "markLoop sv email' (ev1 # ev2 # rest) w1 = (Inr (), w2, [CallFindUnique email' (Inr None)])
       \<and> sendInviteHandler sv prodHost req w =
           (Inr \<lparr>status = 200, json_data = True\<rparr>, w2,
            [CallSendInvite (ev1 # ev2 # rest) email' (Inr ok), CallFindUnique email' (Inr None)])"
  using assms by (simp add: sendInviteHandler_def)

theorem handler_stops_marking_when_user_missing_witness:
  "body_events \<lparr>header_host = Some ''example.com'', body_events = Some [''e1'', ''e2''],
                 body_email = Some ''bob@example.com''\<rparr> = Some [''e1'', ''e2'']
   \<and> truthy (body_email \<lparr>header_host = Some ''example.com'', body_events = Some [''e1'', ''e2''],
                 body_email = Some ''bob@example.com''\<rparr>) = Some ''bob@example.com''
   \<and> \<not> falsy (Some ''example.com'')
   \<and> sendInvite sample_services [''e1'', ''e2''] ''bob@example.com'' 0 = (Inr (), 1)
   \<and> user_findUnique sample_services ''bob@example.com'' 1 = (Inr None, 2)
   \<and> sendInviteHandler sample_services (Some ''example.com'')
        \<lparr>header_host = Some ''example.com'', body_events = Some [''e1'', ''e2''],
          body_email = Some ''bob@example.com''\<rparr> 0 =
      (Inr \<lparr>status = 200, json_data = True\<rparr>, 2,
       [CallSendInvite [''e1'', ''e2''] ''bob@example.com'' (Inr ()),
        CallFindUnique ''bob@example.com'' (Inr None)])"
proof -
  let ?req = "\<lparr>header_host = Some ''example.com'', body_events = Some [''e1'', ''e2''],
                 body_email = Some ''bob@example.com''\<rparr>"
  have h1: "body_events ?req = Some [''e1'', ''e2'']" by simp
  have h2: "truthy (body_email ?req) = Some ''bob@example.com''" by (simp add: truthy_def)
  have h3: "\<not> falsy (Some ''example.com'')" by (simp add: falsy_def truthy_def)
  have h4: "sendInvite sample_services [''e1'', ''e2''] ''bob@example.com'' 0 = (Inr (), 1)"
    by (simp add: sample_services_def)
  have h5: "user_findUnique sample_services ''bob@example.com'' 1 = (Inr None, 2)"
    by (simp add: sample_services_def)
  from handler_stops_marking_when_user_missing[OF h1 h2 h3 h4 h5] h1 h2 h3 h4 h5
  show ?thesis by simp
qed

text \<open>
  Claim C5. In a run of the marking loop in which the \<open>rsvp.update\<close> of an event
  rejects, the error is written with \<open>console.error\<close> right after the rejected call and
  is not propagated: the loop rejects only with the error of a rejected user lookup.
  The updates the run attempts are the events of the list, in order, up to where the
  loop ends; and when every user lookup of the run found a user, the loop ends
  normally and has attempted the update of every event of the list, those after the
  rejected one included.
\<close>

theorem markLoop_update_error_caught:
  assumes run: "markLoop sv email' evs w = (res, w', tr)"
      and thrown: "CallRsvpUpdate ev uid (Inl err) \<in> set tr"
  shows "(\<exists>t1 t2. tr = t1 @ CallRsvpUpdate ev uid (Inl err) # ConsoleErrorObj err # t2)
       \<and> (\<forall>err'. res = Inl err' \<longrightarrow> CallFindUnique email' (Inl err') \<in> set tr)
       \<and> prefix (rsvp_update_calls tr) evs
       \<and> ((\<forall>r. CallFindUnique email' r \<in> set tr \<longrightarrow> (\<exists>u. r = Inr (Some u)))
            \<longrightarrow> res = Inr () \<and> rsvp_update_calls tr = evs)"
proof (intro conjI allI impI)
  show "\<exists>t1 t2. tr = t1 @ CallRsvpUpdate ev uid (Inl err) # ConsoleErrorObj err # t2"
    using run thrown by (rule markLoop_thrown_logged)
  show "CallFindUnique email' (Inl err') \<in> set tr" if "res = Inl err'" for err'
    using run that by (auto intro: markLoop_rejection_source)
  show "prefix (rsvp_update_calls tr) evs"
    using run by (rule markLoop_calls_prefix)
  show "res = Inr ()" "rsvp_update_calls tr = evs"
    if "\<forall>r. CallFindUnique email' r \<in> set tr \<longrightarrow> (\<exists>u. r = Inr (Some u))"
    using markLoop_all_attempted[OF run that] by simp_all
qed

theorem markLoop_update_error_caught_witness:
  "CallRsvpUpdate ''bad'' ''u1'' (Inl (Error ''Record to update not found.''))
     \<in> set (snd (snd (markLoop sample_services ''ann@example.com''
                          [''e1'', ''bad'', ''e2'', ''e3''] 0)))
   \<and> fst (markLoop sample_services ''ann@example.com'' [''e1'', ''bad'', ''e2'', ''e3''] 0)
       = Inr ()
   \<and> rsvp_update_calls (snd (snd (markLoop sample_services ''ann@example.com''
                          [''e1'', ''bad'', ''e2'', ''e3''] 0)))
       = [''e1'', ''bad'', ''e2'', ''e3'']
   \<and> (\<exists>t1 t2. snd (snd (markLoop sample_services ''ann@example.com''
                          [''e1'', ''bad'', ''e2'', ''e3''] 0))
        = t1 @ CallRsvpUpdate ''bad'' ''u1'' (Inl (Error ''Record to update not found.''))
             # ConsoleErrorObj (Error ''Record to update not found.'') # t2)"
proof -
  let ?run = "markLoop sample_services ''ann@example.com'' [''e1'', ''bad'', ''e2'', ''e3''] 0"
  have run: "?run = (fst ?run, fst (snd ?run), snd (snd ?run))" by simp
  have thrown: "CallRsvpUpdate ''bad'' ''u1'' (Inl (Error ''Record to update not found.''))
     \<in> set (snd (snd ?run))"
    unfolding sample_run_marking by simp
  have found: "\<forall>r. CallFindUnique ''ann@example.com'' r \<in> set (snd (snd ?run))
                 \<longrightarrow> (\<exists>u. r = Inr (Some u))"
    unfolding sample_run_marking by auto
  from markLoop_update_error_caught[OF run thrown] found thrown
  show ?thesis by blast
qed

section \<open>The RSVP link\<close>

text \<open>
  Claim C8. Every description built by \<open>parseEvents\<close> ends with the link
  \<open>{protocol}://{host}/rsvp/{hash}\<close> of its event, where the protocol is \<open>http\<close> when
  \<open>localhost\<close> occurs in the host and \<open>https\<close> otherwise.
\<close>

theorem parseEvents_rsvp_link:
  "parseEvents toString events reqHost = Inr parsed \<Longrightarrow> i < length events \<Longrightarrow>
   suffix ((if sublist ''localhost'' reqHost then ''http'' else ''https'')
             @ ''://'' @ reqHost @ ''/rsvp/'' @ hash (events ! i))
          (description (parsed ! i))"
  unfolding parseEvents_def Let_def protocol_of_def includes_str_sublist
  by (drule mapE_Inr_nth, assumption, erule parseEvent_description)

theorem parseEvents_rsvp_link_witness:
  "(\<exists>parsed. parseEvents sample_toString [sample_event] ''example.com'' = Inr parsed
      \<and> suffix ''https://example.com/rsvp/abc123'' (description (parsed ! 0)))
   \<and> (\<exists>parsed. parseEvents sample_toString [sample_event] ''localhost:3000'' = Inr parsed
      \<and> suffix ''http://localhost:3000/rsvp/abc123'' (description (parsed ! 0)))"
proof -
  have len: "0 < length [sample_event]" by simp
  have h: "hash sample_event = ''abc123''" by (simp add: sample_event_def)
  have s1: "\<not> sublist ''localhost'' ''example.com''"
    by (simp add: includes_str_sublist[symmetric])
  have s2: "sublist ''localhost'' ''localhost:3000''"
    by (simp add: includes_str_sublist[symmetric])
  obtain p1 where p1: "parseEvents sample_toString [sample_event] ''example.com'' = Inr p1"
    by (simp add: parseEvents_def parseEvent_def sample_event_def falsy_def truthy_def)
  obtain p2 where p2: "parseEvents sample_toString [sample_event] ''localhost:3000'' = Inr p2"
    by (simp add: parseEvents_def parseEvent_def sample_event_def falsy_def truthy_def)
  from parseEvents_rsvp_link[OF p1 len] s1 h
  have "suffix ''https://example.com/rsvp/abc123'' (description (p1 ! 0))" by simp
  moreover from parseEvents_rsvp_link[OF p2 len] s2 h
  have "suffix ''http://localhost:3000/rsvp/abc123'' (description (p2 ! 0))" by simp
  ultimately show ?thesis using p1 p2 by blast
qed

section \<open>Attendees are fetched and sent back\<close>

text \<open>
  Claim C6. Every update request of a run whose payload is not a deleted event carries
  the attendees that a successful \<open>getEvent\<close> of the same run returned for the remote
  calendar id and remote event id of that payload: the fetched list itself when the
  remote event has one, the empty list when it has none. And in a run that got its
  calendar and had no \<open>getEvent\<close> rejected, the update requests are, in order, one for
  every event of the working set that is deleted or has a remote calendar id: for a
  non-deleted event the request carries the payload \<open>parseEvents\<close> built for it, with
  \<open>attendees\<close> set to the list a \<open>getEvent\<close> of the run returned for its remote ids and
  nothing else changed.
\<close>

theorem updateEvents_payload_keeps_attendees:
  assumes run: "updateEvents ad toString events reqHost w = (res, w', tr)"
  shows "(\<forall>params r.
            CallEventsUpdate params r \<in> set tr \<longrightarrow> \<not> p_isDeleted (requestBody params) \<longrightarrow>
            (\<exists>calendarId gid ev.
               CallGetEvent calendarId gid (Inr ev) \<in> set tr
             \<and> p_gCalId (requestBody params) = Some calendarId
             \<and> p_gCalEventId (requestBody params) = Some gid
             \<and> attendees (requestBody params)
                 = Some (case g_attendees ev of None \<Rightarrow> [] | Some a \<Rightarrow> a)))
       \<and> (\<forall>c. CallGetCalendar (Inr c) \<in> set tr \<longrightarrow>
            (\<forall>calendarId gid err. CallGetEvent calendarId gid (Inl err) \<notin> set tr) \<longrightarrow>
            list_all2
              (\<lambda>e params. eventId params = gCalEventId e
                 \<and> (\<exists>p. parseEvent toString (protocol_of reqHost) reqHost e = Inr p
                      \<and> (if isDeleted e then requestBody params = p
                          else \<exists>calendarId gid ev.
                                 gCalId e = Some calendarId \<and> gCalEventId e = Some gid
                               \<and> CallGetEvent calendarId gid (Inr ev) \<in> set tr
                               \<and> requestBody params
                                   = p\<lparr>attendees :=
                                        Some (case g_attendees ev of None \<Rightarrow> [] | Some a \<Rightarrow> a)\<rparr>)))
              (filter (\<lambda>e. isDeleted e \<or> \<not> falsy (gCalId e))
                 (updated events @ mark_deleted (deleted events)))
              (update_calls tr))"
proof (intro conjI allI impI)
  fix params r
  assume "CallEventsUpdate params r \<in> set tr" "\<not> p_isDeleted (requestBody params)"
  with run show "\<exists>calendarId gid ev.
               CallGetEvent calendarId gid (Inr ev) \<in> set tr
             \<and> p_gCalId (requestBody params) = Some calendarId
             \<and> p_gCalEventId (requestBody params) = Some gid
             \<and> attendees (requestBody params)
                 = Some (case g_attendees ev of None \<Rightarrow> [] | Some a \<Rightarrow> a)"
    by (rule updateEvents_payload_from_fetch)
next
  fix c
  assume "CallGetCalendar (Inr c) \<in> set tr"
    "\<forall>calendarId gid err. CallGetEvent calendarId gid (Inl err) \<notin> set tr"
  with run show "list_all2
              (\<lambda>e params. eventId params = gCalEventId e
                 \<and> (\<exists>p. parseEvent toString (protocol_of reqHost) reqHost e = Inr p
                      \<and> (if isDeleted e then requestBody params = p
                          else \<exists>calendarId gid ev.
                                 gCalId e = Some calendarId \<and> gCalEventId e = Some gid
                               \<and> CallGetEvent calendarId gid (Inr ev) \<in> set tr
                               \<and> requestBody params
                                   = p\<lparr>attendees :=
                                        Some (case g_attendees ev of None \<Rightarrow> [] | Some a \<Rightarrow> a)\<rparr>)))
              (filter (\<lambda>e. isDeleted e \<or> \<not> falsy (gCalId e))
                 (updated events @ mark_deleted (deleted events)))
              (update_calls tr)"
    by (rule updateEvents_updates_exact)
qed

theorem updateEvents_payload_keeps_attendees_witness:
  "(let tr = snd (snd (updateEvents sample_adapter sample_toString
                 \<lparr>updated = [sample_event, sample_event_no_attendees], deleted = []\<rparr>
                 ''example.com'' 0));
        params = \<lparr>eventId = Some ''g1'',
                   requestBody = sample_payload\<lparr>attendees := Some [sample_attendee]\<rparr>\<rparr>
    in CallEventsUpdate params (Inr \<lparr>data_id = Some ''g1''\<rparr>) \<in> set tr
     \<and> \<not> p_isDeleted (requestBody params)
     \<and> CallGetEvent ''cal'' ''g1'' (Inr \<lparr>g_attendees = Some [sample_attendee]\<rparr>) \<in> set tr
     \<and> attendees (requestBody params) = Some [sample_attendee]
     \<and> (\<exists>calendarId gid ev.
           CallGetEvent calendarId gid (Inr ev) \<in> set tr
         \<and> p_gCalId (requestBody params) = Some calendarId
         \<and> p_gCalEventId (requestBody params) = Some gid
         \<and> attendees (requestBody params)
             = Some (case g_attendees ev of None \<Rightarrow> [] | Some a \<Rightarrow> a))
     \<and> CallGetCalendar (Inr ()) \<in> set tr
     \<and> filter (\<lambda>e. isDeleted e \<or> \<not> falsy (gCalId e))
          (updated \<lparr>updated = [sample_event, sample_event_no_attendees], deleted = []\<rparr>
           @ mark_deleted
               (deleted \<lparr>updated = [sample_event, sample_event_no_attendees], deleted = []\<rparr>))
        = [sample_event, sample_event_no_attendees]
     \<and> update_calls tr
        = [params,
           \<lparr>eventId = Some ''g-none'',
            requestBody = sample_payload\<lparr>databaseId := ''e2'',
               p_gCalEventId := Some ''g-none'', attendees := Some []\<rparr>\<rparr>]
     \<and> list_all2
          (\<lambda>e params. eventId params = gCalEventId e
             \<and> (\<exists>p. parseEvent sample_toString (protocol_of ''example.com'') ''example.com'' e
                       = Inr p
                  \<and> (if isDeleted e then requestBody params = p
                      else \<exists>calendarId gid ev.
                             gCalId e = Some calendarId \<and> gCalEventId e = Some gid
                           \<and> CallGetEvent calendarId gid (Inr ev) \<in> set tr
                           \<and> requestBody params
                               = p\<lparr>attendees :=
                                    Some (case g_attendees ev of None \<Rightarrow> [] | Some a \<Rightarrow> a)\<rparr>)))
          [sample_event, sample_event_no_attendees]
          (update_calls tr))"
proof -
  let ?events = "\<lparr>updated = [sample_event, sample_event_no_attendees], deleted = []\<rparr>"
  let ?tr = "snd (snd (updateEvents sample_adapter sample_toString ?events ''example.com'' 0))"
  let ?params = "\<lparr>eventId = Some ''g1'',
                   requestBody = sample_payload\<lparr>attendees := Some [sample_attendee]\<rparr>\<rparr>"
  note run = sample_run_attendees
  have tr: "?tr = [CallGetCalendar (Inr ()),
     CallGetEvent ''cal'' ''g1'' (Inr \<lparr>g_attendees = Some [sample_attendee]\<rparr>),
     CallGetEvent ''cal'' ''g-none'' (Inr \<lparr>g_attendees = None\<rparr>),
     CallEventsUpdate ?params (Inr \<lparr>data_id = Some ''g1''\<rparr>),
     CallEventsUpdate
       \<lparr>eventId = Some ''g-none'',
        requestBody = sample_payload\<lparr>databaseId := ''e2'', p_gCalEventId := Some ''g-none'',
                                     attendees := Some []\<rparr>\<rparr>
       (Inr \<lparr>data_id = Some ''g-none''\<rparr>)]"
    unfolding run by simp
  have run': "updateEvents sample_adapter sample_toString ?events ''example.com'' 0
      = (Inr [\<lparr>calendarEventId = Some ''g1'', databaseEventId = Some ''e1''\<rparr>,
              \<lparr>calendarEventId = Some ''g-none'', databaseEventId = Some ''e2''\<rparr>], 5, ?tr)"
    unfolding tr by (rule run)
  have mem: "CallEventsUpdate ?params (Inr \<lparr>data_id = Some ''g1''\<rparr>) \<in> set ?tr"
    unfolding tr by simp
  have nd: "\<not> p_isDeleted (requestBody ?params)" by (simp add: sample_payload_def)
  have cal: "CallGetCalendar (Inr ()) \<in> set ?tr" unfolding tr by simp
  have nofail: "\<forall>calendarId gid err. CallGetEvent calendarId gid (Inl err) \<notin> set ?tr"
    unfolding tr by simp
  have fetch: "CallGetEvent ''cal'' ''g1'' (Inr \<lparr>g_attendees = Some [sample_attendee]\<rparr>) \<in> set ?tr"
    unfolding tr by simp
  have att: "attendees (requestBody ?params) = Some [sample_attendee]" by simp
  have kept: "filter (\<lambda>e. isDeleted e \<or> \<not> falsy (gCalId e))
          (updated ?events @ mark_deleted (deleted ?events))
        = [sample_event, sample_event_no_attendees]"
    by (simp add: mark_deleted_def sample_defs falsy_def truthy_def)
  have calls: "update_calls ?tr
        = [?params,
           \<lparr>eventId = Some ''g-none'',
            requestBody = sample_payload\<lparr>databaseId := ''e2'',
               p_gCalEventId := Some ''g-none'', attendees := Some []\<rparr>\<rparr>]"
    unfolding tr by simp
  note inst = updateEvents_payload_keeps_attendees[OF run']
  from inst mem nd have a: "\<exists>calendarId gid ev.
           CallGetEvent calendarId gid (Inr ev) \<in> set ?tr
         \<and> p_gCalId (requestBody ?params) = Some calendarId
         \<and> p_gCalEventId (requestBody ?params) = Some gid
         \<and> attendees (requestBody ?params)
             = Some (case g_attendees ev of None \<Rightarrow> [] | Some a \<Rightarrow> a)"
    by blast
  from inst cal nofail have "list_all2
          (\<lambda>e params. eventId params = gCalEventId e
             \<and> (\<exists>p. parseEvent sample_toString (protocol_of ''example.com'') ''example.com'' e
                       = Inr p
                  \<and> (if isDeleted e then requestBody params = p
                      else \<exists>calendarId gid ev.
                             gCalId e = Some calendarId \<and> gCalEventId e = Some gid
                           \<and> CallGetEvent calendarId gid (Inr ev) \<in> set ?tr
                           \<and> requestBody params
                               = p\<lparr>attendees :=
                                    Some (case g_attendees ev of None \<Rightarrow> [] | Some a \<Rightarrow> a)\<rparr>)))
          (filter (\<lambda>e. isDeleted e \<or> \<not> falsy (gCalId e))
             (updated ?events @ mark_deleted (deleted ?events)))
          (update_calls ?tr)"
    by blast
  then have b: "list_all2
          (\<lambda>e params. eventId params = gCalEventId e
             \<and> (\<exists>p. parseEvent sample_toString (protocol_of ''example.com'') ''example.com'' e
                       = Inr p
                  \<and> (if isDeleted e then requestBody params = p
                      else \<exists>calendarId gid ev.
                             gCalId e = Some calendarId \<and> gCalEventId e = Some gid
                           \<and> CallGetEvent calendarId gid (Inr ev) \<in> set ?tr
                           \<and> requestBody params
                               = p\<lparr>attendees :=
                                    Some (case g_attendees ev of None \<Rightarrow> [] | Some a \<Rightarrow> a)\<rparr>)))
          [sample_event, sample_event_no_attendees]
          (update_calls ?tr)"
    by (simp only: kept)
  from mem nd fetch att a cal kept calls b show ?thesis
    unfolding Let_def by (intro conjI)
qed

section \<open>The batch of updates is all or nothing\<close>

text \<open>
  Claim C9. When one update call of a run is rejected, \<open>updateEvents\<close> rejects and
  returns no list of pairs; the update calls of the run are nevertheless those of the
  whole array \<open>eventsToUpdate\<close>, one per element and in its order, since all of them are
  issued before the answers are joined.
\<close>

theorem updateEvents_all_or_nothing:
  assumes "updateEvents ad toString events reqHost w = (res, w', tr)"
      and "CallEventsUpdate params (Inl err) \<in> set tr"
  shows "(\<exists>err'. res = Inl err')
       \<and> (\<exists>parsed c w1 out w2 tr1.
             parseEvents toString (updated events @ mark_deleted (deleted events)) reqHost = Inr parsed
           \<and> getCalendar ad w = (Inr c, w1)
           \<and> fetchLoop ad parsed [] w1 = (Inr out, w2, tr1)
           \<and> update_calls tr = map (\<lambda>e. \<lparr>eventId = p_gCalEventId e, requestBody = e\<rparr>) out)"
  using assms
proof (cases rule: updateEvents_update_stage)
  case (1 parsed c w1 out w2 tr1 rs tr2)
  from issueUpdates_mem[OF 1(4) 1(7)] have "Inl err \<in> set rs" by auto
  then have "isl (promise_all rs)" unfolding promise_all_isl by force
  with 1(5) have rej: "\<exists>err'. res = Inl err'" by (cases "promise_all rs") auto
  have "update_calls tr = map (\<lambda>e. \<lparr>eventId = p_gCalEventId e, requestBody = e\<rparr>) out"
    using 1(6) fetchLoop_no_updates[OF 1(3)] issueUpdates_calls[OF 1(4)] by simp
  with rej 1(1,2,3) show ?thesis by blast
qed

theorem updateEvents_all_or_nothing_witness:
  "fst (updateEvents sample_adapter sample_toString
     \<lparr>updated = [sample_event_rejected, sample_event], deleted = []\<rparr> ''example.com'' 0)
     = Inl (Error ''update rejected'')
   \<and> map eventId (update_calls (snd (snd (updateEvents sample_adapter sample_toString
     \<lparr>updated = [sample_event_rejected, sample_event], deleted = []\<rparr> ''example.com'' 0))))
     = [Some ''g-reject'', Some ''g1'']"
proof -
  let ?p = "\<lparr>eventId = Some ''g-reject'',
        requestBody = sample_payload\<lparr>databaseId := ''e4'', p_gCalEventId := Some ''g-reject'',
                                     attendees := Some [sample_attendee]\<rparr>\<rparr>"
  have mem: "CallEventsUpdate ?p (Inl (Error ''update rejected''))
    \<in> set [CallGetCalendar (Inr ()),
     CallGetEvent ''cal'' ''g-reject'' (Inr \<lparr>g_attendees = Some [sample_attendee]\<rparr>),
     CallGetEvent ''cal'' ''g1'' (Inr \<lparr>g_attendees = Some [sample_attendee]\<rparr>),
     CallEventsUpdate ?p (Inl (Error ''update rejected'')),
     CallEventsUpdate
       \<lparr>eventId = Some ''g1'',
        requestBody = sample_payload\<lparr>attendees := Some [sample_attendee]\<rparr>\<rparr>
       (Inr \<lparr>data_id = Some ''g1''\<rparr>)]"
    by simp
  from updateEvents_all_or_nothing[OF sample_run_rejected mem]
  show ?thesis unfolding sample_run_rejected by simp
qed

section \<open>Deleted events and the remote calendar id\<close>

text \<open>
  Claim C10. When the attendee loop of a run completes, a deleted event of the working
  set that has no remote calendar id still gets its update call, with the payload
  \<open>parseEvents\<close> built for it and its remote event id; an update whose payload is not a
  deleted event always has a remote calendar id, so a non-deleted event without one
  gets no update call.
\<close>

theorem deleted_event_updated_without_calendar_id:
  assumes run: "updateEvents ad toString events reqHost w = (res, w', tr)"
      and parse: "parseEvents toString (updated events @ mark_deleted (deleted events)) reqHost
                    = Inr parsed"
      and cal: "getCalendar ad w = (Inr c, w1)"
      and loop: "fetchLoop ad parsed [] w1 = (Inr out, w2, tr1)"
      and e: "e \<in> set (updated events @ mark_deleted (deleted events))"
             "isDeleted e" "falsy (gCalId e)"
  shows "(\<exists>params \<in> set (update_calls tr).
            parseEvent toString (protocol_of reqHost) reqHost e = Inr (requestBody params)
          \<and> eventId params = gCalEventId e \<and> \<not> falsy (gCalEventId e))
       \<and> (\<forall>params \<in> set (update_calls tr).
            \<not> p_isDeleted (requestBody params) \<longrightarrow> \<not> falsy (p_gCalId (requestBody params)))"
  using run
proof (cases rule: updateEvents_cases)
  case (parse_error err)
  with parse show ?thesis by simp
next
  case (calendar_error parsed' err)
  with cal show ?thesis by simp
next
  case (fetch_error parsed' c' w1' err tr1')
  with parse cal loop show ?thesis by simp
next
  case (updates parsed' c' w1' out' w2' tr1' rs tr2)
  with parse cal loop have eq: "parsed' = parsed" "out' = out" by simp_all
  have calls: "update_calls tr = map (\<lambda>e. \<lparr>eventId = p_gCalEventId e, requestBody = e\<rparr>) out"
    using updates(6) fetchLoop_no_updates[OF updates(3)] issueUpdates_calls[OF updates(4)] eq
    by simp
  from mapE_Inr_image[OF parse[unfolded parseEvents_def Let_def] e(1)]
  obtain p where p: "p \<in> set parsed"
      "parseEvent toString (protocol_of reqHost) reqHost e = Inr p"
    by blast
  from parseEvent_Inr[OF p(2)] e(2)
  have pd: "p_isDeleted p" "p_gCalEventId p = gCalEventId e" "\<not> falsy (gCalEventId e)"
    by simp_all
  from fetchLoop_keeps_deleted[OF loop] p(1) pd(1) have "p \<in> set out" by blast
  then have "\<lparr>eventId = p_gCalEventId p, requestBody = p\<rparr> \<in> set (update_calls tr)"
    unfolding calls set_map by (rule imageI)
  with p(2) pd have first: "\<exists>params \<in> set (update_calls tr).
            parseEvent toString (protocol_of reqHost) reqHost e = Inr (requestBody params)
          \<and> eventId params = gCalEventId e \<and> \<not> falsy (gCalEventId e)"
    by (intro bexI[of _ "\<lparr>eventId = p_gCalEventId p, requestBody = p\<rparr>"]) simp_all
  have second: "\<not> falsy (p_gCalId (requestBody params))"
    if "params \<in> set (update_calls tr)" "\<not> p_isDeleted (requestBody params)" for params
  proof -
    from that(1) have "requestBody params \<in> set out" unfolding calls by auto
    from fetchLoop_out[OF loop this] that(2)
    have "\<exists>calendarId. truthy (p_gCalId (requestBody params)) = Some calendarId"
      by auto
    then show ?thesis by (auto simp: falsy_def)
  qed
  from first second show ?thesis by blast
qed

theorem deleted_event_updated_without_calendar_id_witness:
  "isDeleted (sample_event_no_calendar\<lparr>isDeleted := True\<rparr>)
   \<and> falsy (gCalId (sample_event_no_calendar\<lparr>isDeleted := True\<rparr>))
   \<and> update_calls (snd (snd (updateEvents sample_adapter sample_toString
        \<lparr>updated = [sample_event_no_calendar], deleted = [sample_event_no_calendar]\<rparr>
        ''example.com'' 0)))
      = [\<lparr>eventId = Some ''g3'',
          requestBody = sample_payload\<lparr>databaseId := ''e3'', p_isDeleted := True,
           p_gCalId := None, p_gCalEventId := Some ''g3'',
           summary := ''CANCELLED: Standup''\<rparr>\<rparr>]
   \<and> parseEvent sample_toString (protocol_of ''example.com'') ''example.com''
        (sample_event_no_calendar\<lparr>isDeleted := True\<rparr>)
      = Inr (sample_payload\<lparr>databaseId := ''e3'', p_isDeleted := True,
           p_gCalId := None, p_gCalEventId := Some ''g3'',
           summary := ''CANCELLED: Standup''\<rparr>)"
proof -
  let ?events = "\<lparr>updated = [sample_event_no_calendar], deleted = [sample_event_no_calendar]\<rparr>"
  let ?e = "sample_event_no_calendar\<lparr>isDeleted := True\<rparr>"
  let ?p = "sample_payload\<lparr>databaseId := ''e3'', p_gCalId := None,
              p_gCalEventId := Some ''g3''\<rparr>"
  let ?pd = "sample_payload\<lparr>databaseId := ''e3'', p_isDeleted := True,
           p_gCalId := None, p_gCalEventId := Some ''g3'',
           summary := ''CANCELLED: Standup''\<rparr>"
  have parse: "parseEvents sample_toString (updated ?events @ mark_deleted (deleted ?events))
      ''example.com'' = Inr [?p, ?pd]"
    by (simp add: code_defs sample_defs)
  have cal: "getCalendar sample_adapter 0 = (Inr (), 1)"
    by (simp add: sample_adapter_def)
  have loop: "fetchLoop sample_adapter [?p, ?pd] [] 1 =
      (Inr [?pd], 1, [ConsoleError ''gCalId not defined for the event''])"
    by (simp add: code_defs sample_defs)
  have mem: "?e \<in> set (updated ?events @ mark_deleted (deleted ?events))"
    by (simp add: mark_deleted_def)
  have del: "isDeleted ?e" by simp
  have nocal: "falsy (gCalId ?e)"
    by (simp add: falsy_def truthy_def sample_event_no_calendar_def)
  from deleted_event_updated_without_calendar_id
         [OF sample_run_no_calendar parse cal loop mem del nocal] del nocal
  show ?thesis unfolding sample_run_no_calendar by auto
qed

section \<open>Cancelled titles and the attendee fetch\<close>

text \<open>
  Claim C7. The payload that \<open>parseEvents\<close> builds for an event of the working set has
  the title of the event, prefixed with \<open>CANCELLED: \<close> exactly when the event is
  deleted. Every update payload of a run belongs to an event of the working set and
  has that title; the payload of a deleted event has no attendee list. The \<open>getEvent\<close>
  calls of the run are, in order, calls for the non-deleted events of the working set
  that have a remote calendar id, at most one for each, so no call is made for a
  deleted event.
\<close>

theorem deleted_events_cancelled_not_fetched:
  assumes "updateEvents ad toString events reqHost w = (res, w', tr)"
  shows "(\<forall>parsed i.
            parseEvents toString (updated events @ mark_deleted (deleted events)) reqHost = Inr parsed
            \<longrightarrow> i < length (updated events @ mark_deleted (deleted events))
            \<longrightarrow> summary (parsed ! i)
                 = (if isDeleted ((updated events @ mark_deleted (deleted events)) ! i)
                    then ''CANCELLED: '' @ title ((updated events @ mark_deleted (deleted events)) ! i)
                    else title ((updated events @ mark_deleted (deleted events)) ! i)))
       \<and> (\<forall>params \<in> set (update_calls tr).
            \<exists>e \<in> set (updated events @ mark_deleted (deleted events)).
               databaseId (requestBody params) = event_id e
             \<and> p_isDeleted (requestBody params) = isDeleted e
             \<and> summary (requestBody params)
                 = (if isDeleted e then ''CANCELLED: '' @ title e else title e)
             \<and> (isDeleted e \<longrightarrow> attendees (requestBody params) = None))
       \<and> prefix (map (\<lambda>(calendarId, gid). (Some calendarId, Some gid)) (getEvent_calls tr))
                (map (\<lambda>e. (gCalId e, gCalEventId e))
                   (filter (\<lambda>e. \<not> isDeleted e \<and> \<not> falsy (gCalId e))
                      (updated events @ mark_deleted (deleted events))))"
  using updateEvents_titles_and_fetches[OF assms] parseEvents_summary
  by (intro conjI allI impI) (blast+)

theorem deleted_events_cancelled_not_fetched_witness:
  "map (\<lambda>params. (p_isDeleted (requestBody params), summary (requestBody params),
                    attendees (requestBody params)))
     (update_calls (snd (snd (updateEvents sample_adapter sample_toString
        \<lparr>updated = [sample_event], deleted = [sample_event_no_attendees]\<rparr> ''example.com'' 0))))
     = [(False, ''Standup'', Some [sample_attendee]), (True, ''CANCELLED: Standup'', None)]
   \<and> getEvent_calls (snd (snd (updateEvents sample_adapter sample_toString
        \<lparr>updated = [sample_event], deleted = [sample_event_no_attendees]\<rparr> ''example.com'' 0)))
     = [(''cal'', ''g1'')]
   \<and> map (\<lambda>e. (gCalId e, gCalEventId e))
        (filter (\<lambda>e. \<not> isDeleted e \<and> \<not> falsy (gCalId e))
           (updated \<lparr>updated = [sample_event], deleted = [sample_event_no_attendees]\<rparr>
            @ mark_deleted (deleted \<lparr>updated = [sample_event], deleted = [sample_event_no_attendees]\<rparr>)))
     = [(Some ''cal'', Some ''g1'')]"
  using deleted_events_cancelled_not_fetched[OF sample_run_deleted]
  unfolding sample_run_deleted
  by (simp add: sample_defs mark_deleted_def falsy_def truthy_def)

section \<open>The returned pairs\<close>

text \<open>
  Claim C1. The claim is that the i-th returned pair holds the local id of the event
  whose update produced the i-th remote id. In this run the first event has no remote
  calendar id and is skipped, so the only update call is the one of the second event,
  \<open>e1\<close>, with the remote id \<open>g1\<close>; the returned pair holds \<open>g1\<close> together with \<open>e3\<close>,
  the local id of the skipped event, because the pairs index the whole working set.
\<close>

theorem updateEvents_pairs_wrong_event_after_skip:
  "fst (updateEvents sample_adapter sample_toString
          \<lparr>updated = [sample_event_no_calendar, sample_event], deleted = []\<rparr> ''example.com'' 0)
     = Inr [\<lparr>calendarEventId = Some ''g1'', databaseEventId = Some ''e3''\<rparr>]
   \<and> map (\<lambda>params. (eventId params, databaseId (requestBody params)))
       (update_calls (snd (snd (updateEvents sample_adapter sample_toString
          \<lparr>updated = [sample_event_no_calendar, sample_event], deleted = []\<rparr> ''example.com'' 0))))
     = [(Some ''g1'', ''e1'')]"
  by (simp add: code_defs sample_defs)

section \<open>Events that are skipped\<close>

text \<open>
  Claim C2, as stated, fails in two ways. A batch with an event that has no remote
  event id is rejected as a whole: nothing is logged and the other event is not
  processed. A deleted event without a remote calendar id is not skipped: its update
  call is issued and nothing is logged.
\<close>

theorem updateEvents_not_every_missing_link_skipped:
  "updateEvents sample_adapter sample_toString
     \<lparr>updated = [sample_event_no_remote, sample_event], deleted = []\<rparr> ''example.com'' 0
   = (Inl (Error ''gCalEventId not found for: [object Object]''), 0, [])
   \<and> updateEvents sample_adapter sample_toString
     \<lparr>updated = [], deleted = [sample_event_no_calendar]\<rparr> ''example.com'' 0
   = (Inr [\<lparr>calendarEventId = Some ''g3'', databaseEventId = Some ''e3''\<rparr>], 2,
      [CallGetCalendar (Inr ()),
       CallEventsUpdate
         \<lparr>eventId = Some ''g3'',
          requestBody = sample_payload\<lparr>databaseId := ''e3'', p_isDeleted := True,
             p_gCalId := None, p_gCalEventId := Some ''g3'',
             summary := ''CANCELLED: Standup''\<rparr>\<rparr>
         (Inr \<lparr>data_id = Some ''g3''\<rparr>)])"
  by (simp add: code_defs sample_defs)

text \<open>
  Claim C2, amended. A non-deleted event of the working set that has a remote event id
  and no remote calendar id is skipped, and the rest of the batch is processed as if
  the event were absent: the run makes the same provider calls with the same answers,
  leaves the same world and returns the same remote ids, or the same rejection, as the
  run on the batch without that event; and when the call returns, the error
  \<open>gCalId not defined for the event\<close> has been logged.
\<close>

theorem event_without_calendar_id_skipped:
  assumes e: "\<not> isDeleted e" "\<not> falsy (gCalEventId e)" "falsy (gCalId e)"
      and run: "updateEvents ad toString \<lparr>updated = xs @ e # ys, deleted = ds\<rparr> reqHost w
                  = (res, w', tr)"
      and run0: "updateEvents ad toString \<lparr>updated = xs @ ys, deleted = ds\<rparr> reqHost w
                  = (res0, w0, tr0)"
  shows "adapter_calls tr = adapter_calls tr0 \<and> w' = w0
       \<and> map_sum id (map calendarEventId) res = map_sum id (map calendarEventId) res0
       \<and> (\<not> isl res \<longrightarrow> ConsoleError ''gCalId not defined for the event'' \<in> set tr)"
proof -
  let ?f = "parseEvent toString (protocol_of reqHost) reqHost"
  let ?rest = "ys @ mark_deleted ds"
  from e(2) obtain pe where pe: "?f e = Inr pe"
    by (simp add: parseEvent_def Let_def)
  from parseEvent_Inr[OF pe] e
  have ppe: "\<not> p_isDeleted pe" "\<not> falsy (p_gCalEventId pe)" "falsy (p_gCalId pe)"
    by simp_all
  note skip = parseEvents_skip[OF pe, of xs ?rest]
  from run show ?thesis
  proof (cases rule: updateEvents_cases)
    case (parse_error err)
    with skip have "parseEvents toString (xs @ ?rest) reqHost = Inl err" by simp
    with run0 have "res0 = Inl err" "w0 = w" "tr0 = []"
      by (simp_all add: updateEvents_def)
    with parse_error show ?thesis by simp
  next
    case (calendar_error parsed err)
    with skip obtain p0 where "parseEvents toString (xs @ ?rest) reqHost = Inr p0" by auto
    with run0 calendar_error(2)
    have "res0 = Inl err" "w0 = w'" "tr0 = [CallGetCalendar (Inl err)]"
      by (simp_all add: updateEvents_def)
    with calendar_error show ?thesis by simp
  next
    case (fetch_error parsed c w1 err tr1)
    with skip obtain pxs prest where sp: "parsed = pxs @ pe # prest"
        "parseEvents toString (xs @ ?rest) reqHost = Inr (pxs @ prest)"
      by auto
    obtain r0' w0' tr0' where l0: "fetchLoop ad (pxs @ prest) [] w1 = (r0', w0', tr0')"
      by (cases "fetchLoop ad (pxs @ prest) [] w1")
    from fetchLoop_skip[OF ppe fetch_error(3)[unfolded sp(1)] l0]
    have same: "r0' = Inl err" "w0' = w'" "adapter_calls tr1 = adapter_calls tr0'"
      by simp_all
    with run0 sp(2) fetch_error(2) l0
    have "res0 = Inl err" "w0 = w'" "tr0 = CallGetCalendar (Inr c) # tr0'"
      by (simp_all add: updateEvents_def)
    with fetch_error same(3) show ?thesis by (simp add: adapter_calls_def)
  next
    case (updates parsed c w1 out w2 tr1 rs tr2)
    with skip obtain pxs prest where sp: "parsed = pxs @ pe # prest"
        "parseEvents toString (xs @ ?rest) reqHost = Inr (pxs @ prest)"
      by auto
    obtain r0' w0' tr0' where l0: "fetchLoop ad (pxs @ prest) [] w1 = (r0', w0', tr0')"
      by (cases "fetchLoop ad (pxs @ prest) [] w1")
    from fetchLoop_skip[OF ppe updates(3)[unfolded sp(1)] l0]
    have same: "r0' = Inr out" "w0' = w2" "adapter_calls tr1 = adapter_calls tr0'"
      "ConsoleError ''gCalId not defined for the event'' \<in> set tr1"
      by simp_all
    with run0 sp(2) updates(2,4) l0
    have r0: "res0 = map_sum id (pair_ids (xs @ ?rest)) (promise_all rs)" "w0 = w'"
        "tr0 = CallGetCalendar (Inr c) # tr0' @ tr2"
      by (auto simp: updateEvents_def split: sum.splits)
    have "map_sum id (map calendarEventId) res = map_sum id (map calendarEventId) res0"
      unfolding updates(5) r0(1)
      by (cases "promise_all rs") (simp_all add: pair_ids_calendar)
    with updates(6) r0(2,3) same(3,4) show ?thesis by (simp add: adapter_calls_def)
  qed
qed

theorem event_without_calendar_id_skipped_witness:
  "\<not> isDeleted sample_event_no_calendar
   \<and> \<not> falsy (gCalEventId sample_event_no_calendar)
   \<and> falsy (gCalId sample_event_no_calendar)
   \<and> adapter_calls (snd (snd (updateEvents sample_adapter sample_toString
        \<lparr>updated = [sample_event_no_attendees, sample_event_no_calendar, sample_event],
         deleted = []\<rparr> ''example.com'' 0)))
     = adapter_calls (snd (snd (updateEvents sample_adapter sample_toString
        \<lparr>updated = [sample_event_no_attendees, sample_event], deleted = []\<rparr>
        ''example.com'' 0)))
   \<and> ConsoleError ''gCalId not defined for the event''
       \<in> set (snd (snd (updateEvents sample_adapter sample_toString
        \<lparr>updated = [sample_event_no_attendees, sample_event_no_calendar, sample_event],
         deleted = []\<rparr> ''example.com'' 0)))"
proof -
  have h1: "\<not> isDeleted sample_event_no_calendar"
    by (simp add: sample_defs)
  have h2: "\<not> falsy (gCalEventId sample_event_no_calendar)"
    by (simp add: sample_defs falsy_def truthy_def)
  have h3: "falsy (gCalId sample_event_no_calendar)"
    by (simp add: sample_defs falsy_def truthy_def)
  note run = sample_run_skip
  have run': "updateEvents sample_adapter sample_toString
     \<lparr>updated = [sample_event_no_attendees] @ sample_event_no_calendar # [sample_event],
      deleted = []\<rparr> ''example.com'' 0 =
     (Inr [\<lparr>calendarEventId = Some ''g-none'', databaseEventId = Some ''e2''\<rparr>,
         \<lparr>calendarEventId = Some ''g1'', databaseEventId = Some ''e3''\<rparr>], 5,
      snd (snd (updateEvents sample_adapter sample_toString
        \<lparr>updated = [sample_event_no_attendees, sample_event_no_calendar, sample_event],
         deleted = []\<rparr> ''example.com'' 0)))"
    by (simp add: run)
  have run0: "updateEvents sample_adapter sample_toString
     \<lparr>updated = [sample_event_no_attendees] @ [sample_event], deleted = []\<rparr> ''example.com'' 0 =
     (Inr [\<lparr>calendarEventId = Some ''g-none'', databaseEventId = Some ''e2''\<rparr>,
         \<lparr>calendarEventId = Some ''g1'', databaseEventId = Some ''e1''\<rparr>], 5,
      snd (snd (updateEvents sample_adapter sample_toString
        \<lparr>updated = [sample_event_no_attendees, sample_event], deleted = []\<rparr>
        ''example.com'' 0)))"
    by (simp add: sample_run_skip_removed)
  from event_without_calendar_id_skipped[OF h1 h2 h3 run' run0] h1 h2 h3
  show ?thesis by simp
qed

end
